theory Spec2Isabelle
  imports Main "HOL-Library.Word"
begin

section \<open>Platform and constants\<close>

text \<open>
  The header \<^verbatim>\<open>shared_memory.h\<close> computes with \<^verbatim>\<open>sizeof(unsigned)\<close>,
  \<^verbatim>\<open>sizeof(size_t)\<close> and \<^verbatim>\<open>sizeof(void *)\<close>, which the C platform fixes, not the
  source. They are the fields of a \<open>platform\<close>; \<open>lp64\<close> is the usual 64-bit POSIX platform.
  Values of type \<^verbatim>\<open>size_t\<close> and \<^verbatim>\<open>unsigned\<close> are natural numbers below
  \<open>size_mod\<close> and \<open>uint_mod\<close>; every arithmetic operation of the source on them is
  written with its wrap-around (\<open>sz_add\<close>, \<open>sz_sub\<close>, \<open>sz_mul\<close>).
\<close>

type_synonym byte = "8 word"

record platform =
  sizeof_unsigned :: nat
  sizeof_size_t :: nat
  sizeof_ptr :: nat

definition lp64 :: platform where
  "lp64 = \<lparr>sizeof_unsigned = 4, sizeof_size_t = 8, sizeof_ptr = 8\<rparr>"

text \<open>\<^verbatim>\<open>#define MAX_BYTES 4000000\<close>\<close>

definition MAX_BYTES :: nat where
  "MAX_BYTES = 4000000"

definition size_mod :: "platform \<Rightarrow> nat" where
  "size_mod p = 2 ^ (8 * sizeof_size_t p)"

definition uint_mod :: "platform \<Rightarrow> nat" where
  "uint_mod p = 2 ^ (8 * sizeof_unsigned p)"

text \<open>Conversion of a mathematical integer to \<^verbatim>\<open>size_t\<close>, and the three operations.\<close>

definition sz :: "platform \<Rightarrow> int \<Rightarrow> nat" where
  "sz p x = nat (x mod int (size_mod p))"

definition sz_add :: "platform \<Rightarrow> nat \<Rightarrow> nat \<Rightarrow> nat" where
  "sz_add p a b = (a + b) mod size_mod p"

definition sz_sub :: "platform \<Rightarrow> nat \<Rightarrow> nat \<Rightarrow> nat" where
  "sz_sub p a b = sz p (int a - int b)"

definition sz_mul :: "platform \<Rightarrow> nat \<Rightarrow> nat \<Rightarrow> nat" where
  "sz_mul p a b = (a * b) mod size_mod p"

text \<open>
  \<^verbatim>\<open>static const size_t maxlen = MAX_BYTES - sizeof(unsigned) - sizeof(size_t) * 2 - sizeof(void *);\<close>
\<close>

definition maxlen :: "platform \<Rightarrow> nat" where
  "maxlen p = sz p (int MAX_BYTES - int (sizeof_unsigned p) - int (sizeof_size_t p) * 2
                    - int (sizeof_ptr p))"

text \<open>
  The offsets at which \<^verbatim>\<open>write_shared_memory\<close> stores and \<^verbatim>\<open>read_shared_memory\<close>
  loads the three header fields and the payload.
\<close>

definition off_id :: "platform \<Rightarrow> nat" where
  "off_id p = 0"

definition off_len :: "platform \<Rightarrow> nat" where
  "off_len p = sizeof_unsigned p"

definition off_total :: "platform \<Rightarrow> nat" where
  "off_total p = sizeof_unsigned p + sizeof_size_t p"

definition off_payload :: "platform \<Rightarrow> nat" where
  "off_payload p = sizeof_unsigned p + sizeof_size_t p + sizeof_size_t p"

definition header_size :: "platform \<Rightarrow> nat" where
  "header_size p = off_payload p"

text \<open>
  The bound of the assertion of \<^verbatim>\<open>write_shared_memory\<close>:
  \<^verbatim>\<open>MAX_BYTES - sizeof(size_t) * 2 - sizeof(unsigned)\<close>.
\<close>

definition write_limit :: "platform \<Rightarrow> nat" where
  "write_limit p = sz p (int MAX_BYTES - int (sizeof_size_t p) * 2 - int (sizeof_unsigned p))"

text \<open>
  A platform on which the constants of the header mean what they say: the sizes are
  positive, header and pointer fit into the segment, and \<open>MAX_BYTES\<close> is a \<^verbatim>\<open>size_t\<close>.
\<close>

definition platform_ok :: "platform \<Rightarrow> bool" where
  "platform_ok p =
     (0 < sizeof_unsigned p \<and> 0 < sizeof_size_t p \<and> 0 < sizeof_ptr p \<and>
      sizeof_unsigned p + 2 * sizeof_size_t p + sizeof_ptr p < MAX_BYTES \<and>
      MAX_BYTES < size_mod p)"

section \<open>The mapped segment, the semaphores and the peer\<close>

text \<open>
  The mapped region holds the three header fields and the payload bytes behind them. The
  payload is a function from the offset behind the header to the byte there; the reads
  and writes of the source check their lengths against the size of the region.
\<close>

record segment =
  seg_id :: nat
  seg_len :: nat
  seg_total :: nat
  seg_payload :: "nat \<Rightarrow> byte"

text \<open>\<^verbatim>\<open>memset(self->data, 0, MAX_BYTES)\<close>\<close>

definition zero_segment :: segment where
  "zero_segment = \<lparr>seg_id = 0, seg_len = 0, seg_total = 0, seg_payload = (\<lambda>_. 0)\<rparr>"

text \<open>
  One process runs the function under study; the process at the other end of the channel
  is the \<open>peer\<close>. It is idle, or it still has a list of \<^verbatim>\<open>write_shared_memory\<close> calls
  to make (buffer, length, id, count), or it still makes a number of
  \<^verbatim>\<open>read_shared_memory\<close> calls, or it is a producer that obeys the handshake and
  stores the region contents it is given (\<open>Publishes\<close>), as a test that injects a
  corrupt header does, or it is a consumer that obeys the handshake as a reader does and
  keeps every region content it has taken, in order (\<open>Collects\<close>).
\<close>

datatype peer =
  Idle
| Writes "(byte list \<times> nat \<times> nat \<times> nat) list"
| Reads nat
| Publishes "segment list"
| Collects "segment list"

record world =
  seg :: segment
  r_sem :: nat
  w_sem :: nat
  peer :: peer

text \<open>The four \<^verbatim>\<open>memcpy\<close> calls of \<^verbatim>\<open>write_shared_memory\<close>.\<close>

definition store_fragment :: "segment \<Rightarrow> byte list \<Rightarrow> nat \<Rightarrow> nat \<Rightarrow> nat \<Rightarrow> segment" where
  "store_fragment s data len ident tot =
     \<lparr>seg_id = ident, seg_len = len, seg_total = tot,
      seg_payload = (\<lambda>k. if k < len then data ! k else seg_payload s k)\<rparr>"

text \<open>\<^verbatim>\<open>assert(len > 0 && (len <= MAX_BYTES - sizeof(size_t) * 2 - sizeof(unsigned)))\<close>\<close>

definition write_asserts :: "platform \<Rightarrow> nat \<Rightarrow> bool" where
  "write_asserts p len = (0 < len \<and> len \<le> write_limit p)"

text \<open>
  One transaction of the peer, when its semaphore lets it run: a writing peer makes its
  next call (wait on W, store, post R); a reading peer consumes the fragment (wait on R,
  clear the region, post W), and stops without posting when the length in the header is
  not one it can copy; a publishing peer stores its next region content (wait on W,
  store, post R); a collecting peer does what a reading peer does and notes the region
  content it consumed. A peer that cannot run leaves the world as it is.
\<close>

fun peer_act :: "platform \<Rightarrow> peer \<Rightarrow> world \<Rightarrow> world" where
  "peer_act p Idle w = w"
| "peer_act p (Writes []) w = w"
| "peer_act p (Writes ((data, len, ident, tot) # cs)) w =
     (if write_asserts p len \<and> len \<le> length data \<and> 0 < w_sem w
      then w\<lparr>seg := store_fragment (seg w) data len ident tot,
             w_sem := w_sem w - 1, r_sem := r_sem w + 1, peer := Writes cs\<rparr>
      else w)"
| "peer_act p (Reads 0) w = w"
| "peer_act p (Reads (Suc n)) w =
     (if 0 < r_sem w
      then (if 0 < seg_len (seg w) \<and> seg_len (seg w) \<le> MAX_BYTES - header_size p
            then w\<lparr>seg := zero_segment, r_sem := r_sem w - 1, w_sem := w_sem w + 1,
                   peer := Reads n\<rparr>
            else w\<lparr>r_sem := r_sem w - 1, peer := Idle\<rparr>)
      else w)"
| "peer_act p (Publishes []) w = w"
| "peer_act p (Publishes (s # ss)) w =
     (if 0 < w_sem w
      then w\<lparr>seg := s, w_sem := w_sem w - 1, r_sem := r_sem w + 1, peer := Publishes ss\<rparr>
      else w)"
| "peer_act p (Collects ss) w =
     (if 0 < r_sem w
      then (if 0 < seg_len (seg w) \<and> seg_len (seg w) \<le> MAX_BYTES - header_size p
            then w\<lparr>seg := zero_segment, r_sem := r_sem w - 1, w_sem := w_sem w + 1,
                   peer := Collects (ss @ [seg w])\<rparr>
            else w\<lparr>r_sem := r_sem w - 1, peer := Idle\<rparr>)
      else w)"

definition peer_step :: "platform \<Rightarrow> world \<Rightarrow> world" where
  "peer_step p w = peer_act p (peer w) w"

text \<open>
  \<^verbatim>\<open>sem_wait\<close>: when the count is zero the caller sleeps and the peer runs; when the
  count is still zero after that, nobody is left to post and the call never returns
  (\<open>None\<close>). \<^verbatim>\<open>sem_post\<close> adds one. Letting the peer run only while the caller
  waits loses no behaviour: the handshake admits one transaction at a time, in the
  order write, read, write, read (section C3), and between its transactions a process
  touches neither the region nor the semaphores.
\<close>

definition sem_wait_w :: "platform \<Rightarrow> world \<Rightarrow> world option" where
  "sem_wait_w p w =
     (let w1 = (if w_sem w = 0 then peer_step p w else w)
      in if w_sem w1 = 0 then None else Some (w1\<lparr>w_sem := w_sem w1 - 1\<rparr>))"

definition sem_wait_r :: "platform \<Rightarrow> world \<Rightarrow> world option" where
  "sem_wait_r p w =
     (let w1 = (if r_sem w = 0 then peer_step p w else w)
      in if r_sem w1 = 0 then None else Some (w1\<lparr>r_sem := r_sem w1 - 1\<rparr>))"

definition sem_post_w :: "world \<Rightarrow> world" where
  "sem_post_w w = w\<lparr>w_sem := w_sem w + 1\<rparr>"

definition sem_post_r :: "world \<Rightarrow> world" where
  "sem_post_r w = w\<lparr>r_sem := r_sem w + 1\<rparr>"

section \<open>Outcomes of a call\<close>

text \<open>
  A call returns a value, or blocks in \<^verbatim>\<open>sem_wait\<close> for ever, or stops the process at
  a failed \<^verbatim>\<open>assert\<close>, or has undefined behaviour in C (the \<open>fault\<close> says which).
\<close>

datatype fault = InvalidFree | InvalidRead | InvalidWrite | OutOfBounds

datatype 'a outcome = Returns 'a | Blocks | Aborts | Undefined fault

definition obind :: "'a outcome \<Rightarrow> ('a \<Rightarrow> 'b outcome) \<Rightarrow> 'b outcome" where
  "obind m f = (case m of Returns x \<Rightarrow> f x | Blocks \<Rightarrow> Blocks | Aborts \<Rightarrow> Aborts
                | Undefined e \<Rightarrow> Undefined e)"

section \<open>write_shared_memory and send_item\<close>

text \<open>
  Pointers are never \<^verbatim>\<open>NULL\<close> here, so the assertions on them hold and are not
  written; the two \<^verbatim>\<open>sem_getvalue\<close> calls only fill locals nobody reads. The buffer
  \<open>data\<close> is the list of the bytes from the pointer to the end of its object: copying
  more than it holds is undefined.
\<close>

definition write_shared_memory ::
  "platform \<Rightarrow> world \<Rightarrow> byte list \<Rightarrow> nat \<Rightarrow> nat \<Rightarrow> nat \<Rightarrow> (int \<times> world) outcome" where
  "write_shared_memory p w data len ident tot =
     (if \<not> write_asserts p len then Aborts
      else case sem_wait_w p w of
        None \<Rightarrow> Blocks
      | Some w1 \<Rightarrow>
          if length data < len then Undefined OutOfBounds
          else Returns (0, sem_post_r (w1\<lparr>seg := store_fragment (seg w1) data len ident tot\<rparr>)))"

text \<open>The number of chunks \<^verbatim>\<open>send_item\<close> computes before its loop.\<close>

definition chunk_count :: "platform \<Rightarrow> nat \<Rightarrow> nat" where
  "chunk_count p len =
     (let chunks = (if maxlen p < len then len div maxlen p else 1)
      in if sz_mul p chunks (maxlen p) < len then sz_add p chunks 1 else chunks)"

text \<open>
  The arguments of the call of \<^verbatim>\<open>write_shared_memory\<close> in iteration \<open>i\<close> of the loop:
  \<^verbatim>\<open>data + ustart\<close>, \<^verbatim>\<open>ulen\<close>, \<^verbatim>\<open>(unsigned) i\<close> and \<^verbatim>\<open>chunks\<close>.
\<close>

definition send_args ::
  "platform \<Rightarrow> byte list \<Rightarrow> nat \<Rightarrow> nat \<Rightarrow> nat \<Rightarrow> byte list \<times> nat \<times> nat \<times> nat" where
  "send_args p data len chunks i =
     (let ustart = sz_mul p i (maxlen p);
          ulen = (if chunks = 1 then len
                  else if i = sz_sub p chunks 1 then sz_sub p len (sz_mul p (maxlen p) i)
                  else maxlen p)
      in (drop ustart data, ulen, i mod uint_mod p, chunks))"

function send_loop ::
  "platform \<Rightarrow> world \<Rightarrow> byte list \<Rightarrow> nat \<Rightarrow> nat \<Rightarrow> nat \<Rightarrow> (int \<times> world) outcome" where
  "send_loop p w data len chunks i =
     (if i < chunks then
        (case send_args p data len chunks i of (d, ulen, ident, tot) \<Rightarrow>
           (case write_shared_memory p w d ulen ident tot of
              Returns (r, w') \<Rightarrow>
                if r \<noteq> 0 then Returns (1, w') else send_loop p w' data len chunks (i + 1)
            | Blocks \<Rightarrow> Blocks
            | Aborts \<Rightarrow> Aborts
            | Undefined f \<Rightarrow> Undefined f))
      else Returns (0, w))"
  by pat_completeness auto
termination
  by (relation "measure (\<lambda>(p, w, data, len, chunks, i). chunks - i)") auto

declare send_loop.simps [simp del]

definition send_item :: "platform \<Rightarrow> world \<Rightarrow> byte list \<Rightarrow> nat \<Rightarrow> (int \<times> world) outcome" where
  "send_item p w data len = send_loop p w data len (chunk_count p len) 0"

text \<open>The calls of \<^verbatim>\<open>write_shared_memory\<close> that \<^verbatim>\<open>send_item\<close> makes, in order.\<close>

definition send_calls :: "platform \<Rightarrow> byte list \<Rightarrow> nat \<Rightarrow> (byte list \<times> nat \<times> nat \<times> nat) list" where
  "send_calls p data len =
     map (send_args p data len (chunk_count p len)) [0..<chunk_count p len]"

section \<open>The heap of the receiving process\<close>

text \<open>
  A pointer variable is \<^verbatim>\<open>NULL\<close>, or holds the address of a block, or was never
  assigned (\<open>Wild\<close>). The bytes of a fresh block are indeterminate (\<open>None\<close>).
  \<^verbatim>\<open>malloc\<close> and \<^verbatim>\<open>realloc\<close> fail when the head of \<open>plan\<close> says so; an empty plan
  lets every allocation succeed.
\<close>

datatype ptr = Null | Wild | Addr nat

record heap =
  blocks :: "nat \<rightharpoonup> byte option list"
  next_addr :: nat
  plan :: "bool list"

definition alloc_ok :: "heap \<Rightarrow> bool" where
  "alloc_ok h = (case plan h of [] \<Rightarrow> True | b # bs \<Rightarrow> b)"

definition malloc :: "heap \<Rightarrow> nat \<Rightarrow> ptr \<times> heap" where
  "malloc h n =
     (if alloc_ok h
      then (Addr (next_addr h),
            h\<lparr>blocks := (blocks h)(next_addr h \<mapsto> replicate n None),
              next_addr := next_addr h + 1, plan := tl (plan h)\<rparr>)
      else (Null, h\<lparr>plan := tl (plan h)\<rparr>))"

text \<open>\<^verbatim>\<open>free\<close>: nothing for \<^verbatim>\<open>NULL\<close>, undefined for anything but a live block.\<close>

fun free :: "heap \<Rightarrow> ptr \<Rightarrow> heap outcome" where
  "free h Null = Returns h"
| "free h Wild = Undefined InvalidFree"
| "free h (Addr a) =
     (case blocks h a of
        None \<Rightarrow> Undefined InvalidFree
      | Some bs \<Rightarrow> Returns (h\<lparr>blocks := (blocks h)(a := None)\<rparr>))"

text \<open>Reading \<open>n\<close> bytes at a pointer, and writing bytes at an offset behind a pointer.\<close>

fun mem_read :: "heap \<Rightarrow> ptr \<Rightarrow> nat \<Rightarrow> byte option list outcome" where
  "mem_read h (Addr a) n =
     (case blocks h a of
        None \<Rightarrow> Undefined InvalidRead
      | Some bs \<Rightarrow> if n \<le> length bs then Returns (take n bs) else Undefined OutOfBounds)"
| "mem_read h Null n = Undefined InvalidRead"
| "mem_read h Wild n = Undefined InvalidRead"

fun mem_write :: "heap \<Rightarrow> ptr \<Rightarrow> nat \<Rightarrow> byte option list \<Rightarrow> heap outcome" where
  "mem_write h (Addr a) off xs =
     (case blocks h a of
        None \<Rightarrow> Undefined InvalidWrite
      | Some bs \<Rightarrow>
          if off + length xs \<le> length bs
          then Returns (h\<lparr>blocks := (blocks h)(a \<mapsto> take off bs @ xs @ drop (off + length xs) bs)\<rparr>)
          else Undefined OutOfBounds)"
| "mem_write h Null off xs = Undefined InvalidWrite"
| "mem_write h Wild off xs = Undefined InvalidWrite"

text \<open>\<^verbatim>\<open>memcpy(dst + off, src, n)\<close> between two blocks of the heap.\<close>

definition memcpy :: "heap \<Rightarrow> ptr \<Rightarrow> nat \<Rightarrow> ptr \<Rightarrow> nat \<Rightarrow> heap outcome" where
  "memcpy h dst off src n = obind (mem_read h src n) (\<lambda>xs. mem_write h dst off xs)"

text \<open>
  \<^verbatim>\<open>realloc\<close> keeps the address and the first bytes of the block; on failure it
  returns \<^verbatim>\<open>NULL\<close> and leaves the block as it is.
\<close>

fun realloc :: "heap \<Rightarrow> ptr \<Rightarrow> nat \<Rightarrow> (ptr \<times> heap) outcome" where
  "realloc h (Addr a) n =
     (case blocks h a of
        None \<Rightarrow> Undefined InvalidFree
      | Some bs \<Rightarrow>
          if alloc_ok h
          then Returns (Addr a,
                 h\<lparr>blocks := (blocks h)(a \<mapsto> take n bs @ replicate (n - length bs) None),
                   plan := tl (plan h)\<rparr>)
          else Returns (Null, h\<lparr>plan := tl (plan h)\<rparr>))"
| "realloc h Null n = Returns (malloc h n)"
| "realloc h Wild n = Undefined InvalidFree"

section \<open>read_shared_memory and recv_item\<close>

text \<open>
  What \<^verbatim>\<open>read_shared_memory\<close> leaves behind when it returns: the return value, the four
  output parameters, the channel and the heap. \<open>d0\<close> is the value \<^verbatim>\<open>*data\<close> had before
  the call; the call does not touch it on its first error path.
\<close>

record rd =
  rd_rc :: int
  rd_data :: ptr
  rd_len :: nat
  rd_total :: nat
  rd_id :: nat
  rd_world :: world
  rd_heap :: heap

definition read_shared_memory :: "platform \<Rightarrow> world \<Rightarrow> heap \<Rightarrow> ptr \<Rightarrow> rd outcome" where
  "read_shared_memory p w h d0 =
     (case sem_wait_r p w of
        None \<Rightarrow> Blocks
      | Some w1 \<Rightarrow>
          let ident = seg_id (seg w1); len = seg_len (seg w1); tot = seg_total (seg w1) in
          if len \<le> 0 \<or> len > MAX_BYTES
          then Returns \<lparr>rd_rc = 1, rd_data = d0, rd_len = len, rd_total = tot, rd_id = ident,
                         rd_world = w1, rd_heap = h\<rparr>
          else (case malloc h len of (d, h1) \<Rightarrow>
            if d = Null
            then Returns \<lparr>rd_rc = 1, rd_data = d, rd_len = len, rd_total = tot, rd_id = ident,
                           rd_world = w1, rd_heap = h1\<rparr>
            else if MAX_BYTES - header_size p < len then Undefined OutOfBounds
            else obind (mem_write h1 d 0 (map (\<lambda>k. Some (seg_payload (seg w1) k)) [0..<len]))
                   (\<lambda>h2. Returns \<lparr>rd_rc = 0, rd_data = d, rd_len = len, rd_total = tot,
                                    rd_id = ident,
                                    rd_world = sem_post_w (w1\<lparr>seg := zero_segment\<rparr>),
                                    rd_heap = h2\<rparr>)))"

text \<open>What \<^verbatim>\<open>recv_item\<close> leaves behind: return value, \<^verbatim>\<open>*data\<close>, \<^verbatim>\<open>*len\<close>, channel, heap.\<close>

record rv =
  rv_rc :: int
  rv_data :: ptr
  rv_len :: nat
  rv_world :: world
  rv_heap :: heap

text \<open>
  The loop \<^verbatim>\<open>for (i = 1; i < total_chunk - 1; ++i)\<close> of \<^verbatim>\<open>recv_item\<close>; \<open>bound\<close> is
  \<^verbatim>\<open>total_chunk - 1\<close>. The body has no \<^verbatim>\<open>return\<close>: after a failed read it frees
  \<^verbatim>\<open>*data\<close> and goes on.
\<close>

function recv_loop ::
  "platform \<Rightarrow> world \<Rightarrow> heap \<Rightarrow> ptr \<Rightarrow> nat \<Rightarrow> nat \<Rightarrow> nat \<Rightarrow> (world \<times> heap \<times> nat) outcome" where
  "recv_loop p w h data size_per_chunk bound i =
     (if i < bound then
        (case read_shared_memory p w h Wild of
           Returns r \<Rightarrow>
             (case memcpy (rd_heap r) data (sz_mul p i size_per_chunk) (rd_data r) (rd_len r) of
                Returns h1 \<Rightarrow>
                  (case free h1 (rd_data r) of
                     Returns h2 \<Rightarrow>
                       if rd_rc r \<noteq> 0
                       then (case free h2 data of
                               Returns h3 \<Rightarrow>
                                 recv_loop p (rd_world r) h3 data size_per_chunk bound (i + 1)
                             | Blocks \<Rightarrow> Blocks
                             | Aborts \<Rightarrow> Aborts
                             | Undefined f \<Rightarrow> Undefined f)
                       else recv_loop p (rd_world r) h2 data size_per_chunk bound (i + 1)
                   | Blocks \<Rightarrow> Blocks
                   | Aborts \<Rightarrow> Aborts
                   | Undefined f \<Rightarrow> Undefined f)
              | Blocks \<Rightarrow> Blocks
              | Aborts \<Rightarrow> Aborts
              | Undefined f \<Rightarrow> Undefined f)
         | Blocks \<Rightarrow> Blocks
         | Aborts \<Rightarrow> Aborts
         | Undefined f \<Rightarrow> Undefined f)
      else Returns (w, h, i))"
  by pat_completeness auto
termination
  by (relation "measure (\<lambda>(p, w, h, data, size_per_chunk, bound, i). bound - i)") auto

declare recv_loop.simps [simp del]

text \<open>The part of \<^verbatim>\<open>recv_item\<close> behind the loop: the last fragment, when there is one.\<close>

definition recv_last ::
  "platform \<Rightarrow> world \<Rightarrow> heap \<Rightarrow> ptr \<Rightarrow> nat \<Rightarrow> nat \<Rightarrow> nat \<Rightarrow> nat \<Rightarrow> rv outcome" where
  "recv_last p w h data len0 size_per_chunk total_chunk i =
     (if 1 < total_chunk then
        obind (read_shared_memory p w h Wild) (\<lambda>r.
        obind (memcpy (rd_heap r) data (sz_mul p i size_per_chunk) (rd_data r) (rd_len r)) (\<lambda>h1.
          if rd_rc r \<noteq> 0
          then obind (free h1 data) (\<lambda>h2.
                 Returns \<lparr>rv_rc = 1, rv_data = data, rv_len = len0, rv_world = rd_world r,
                          rv_heap = h2\<rparr>)
          else
            let n = sz_add p (sz_mul p (sz_sub p total_chunk 1) size_per_chunk) (rd_len r) in
            if rd_len r \<noteq> size_per_chunk
            then obind (realloc h1 data n) (\<lambda>(d, h2).
                   Returns \<lparr>rv_rc = 0, rv_data = d, rv_len = n, rv_world = rd_world r,
                            rv_heap = h2\<rparr>)
            else Returns \<lparr>rv_rc = 0, rv_data = data, rv_len = n, rv_world = rd_world r,
                          rv_heap = h1\<rparr>))
      else Returns \<lparr>rv_rc = 0, rv_data = data, rv_len = sz_mul p total_chunk size_per_chunk,
                    rv_world = w, rv_heap = h\<rparr>)"

text \<open>
  \<^verbatim>\<open>recv_item\<close>. \<open>data0\<close> and \<open>len0\<close> are the values of \<^verbatim>\<open>*data\<close> and \<^verbatim>\<open>*len\<close>
  before the call. The locals \<^verbatim>\<open>temp\<close> and \<^verbatim>\<open>_temp\<close> are not initialised.
\<close>

definition recv_item :: "platform \<Rightarrow> world \<Rightarrow> heap \<Rightarrow> ptr \<Rightarrow> nat \<Rightarrow> rv outcome" where
  "recv_item p w h data0 len0 =
     obind (read_shared_memory p w h Wild) (\<lambda>r.
       if rd_rc r \<noteq> 0
       then obind (free (rd_heap r) (rd_data r)) (\<lambda>h1.
              Returns \<lparr>rv_rc = 1, rv_data = data0, rv_len = len0, rv_world = rd_world r,
                       rv_heap = h1\<rparr>)
       else
         let total_chunk = rd_total r; size_per_chunk = rd_len r in
         (case malloc (rd_heap r) (sz_mul p total_chunk size_per_chunk) of (data, h1) \<Rightarrow>
            obind (memcpy h1 data 0 (rd_data r) size_per_chunk) (\<lambda>h2.
            obind (free h2 (rd_data r)) (\<lambda>h3.
            obind (recv_loop p (rd_world r) h3 data size_per_chunk (sz_sub p total_chunk 1) 1)
              (\<lambda>(w1, h4, i).
                 recv_last p w1 h4 data len0 size_per_chunk total_chunk i)))))"

section \<open>The handshake as a state machine\<close>

text \<open>
  The semaphore operations of \<^verbatim>\<open>write_shared_memory\<close> and \<^verbatim>\<open>read_shared_memory\<close>
  as events of any number of racing invocations: \<open>BeginWrite\<close> is the
  \<^verbatim>\<open>sem_wait(w_sem)\<close> of a write, \<open>EndWrite\<close> its \<^verbatim>\<open>sem_post(r_sem)\<close>,
  \<open>BeginRead\<close> the \<^verbatim>\<open>sem_wait(r_sem)\<close> of a read, \<open>EndRead\<close> its
  \<^verbatim>\<open>sem_post(w_sem)\<close>, and \<open>FailRead\<close> an error return of a read, which posts
  nothing. The state counts, besides R and W, the invocations between their wait and
  their post.
\<close>

datatype event = BeginWrite | EndWrite | BeginRead | EndRead | FailRead

record hs =
  hs_R :: nat
  hs_W :: nat
  writing :: nat
  reading :: nat

definition hs_init :: hs where
  "hs_init = \<lparr>hs_R = 0, hs_W = 1, writing = 0, reading = 0\<rparr>"

fun hs_step :: "hs \<Rightarrow> event \<Rightarrow> hs option" where
  "hs_step s BeginWrite =
     (if 0 < hs_W s then Some (s\<lparr>hs_W := hs_W s - 1, writing := writing s + 1\<rparr>) else None)"
| "hs_step s EndWrite =
     (if 0 < writing s then Some (s\<lparr>hs_R := hs_R s + 1, writing := writing s - 1\<rparr>) else None)"
| "hs_step s BeginRead =
     (if 0 < hs_R s then Some (s\<lparr>hs_R := hs_R s - 1, reading := reading s + 1\<rparr>) else None)"
| "hs_step s EndRead =
     (if 0 < reading s then Some (s\<lparr>hs_W := hs_W s + 1, reading := reading s - 1\<rparr>) else None)"
| "hs_step s FailRead =
     (if 0 < reading s then Some (s\<lparr>reading := reading s - 1\<rparr>) else None)"

text \<open>A trace runs when each of its events is enabled in turn.\<close>

fun hs_run :: "hs \<Rightarrow> event list \<Rightarrow> hs option" where
  "hs_run s [] = Some s"
| "hs_run s (e # es) = (case hs_step s e of None \<Rightarrow> None | Some s' \<Rightarrow> hs_run s' es)"

text \<open>
  The transactions a trace starts and those it completes, in order, and what it means
  for such a sequence to alternate, beginning with \<open>nxt\<close>.
\<close>

definition started :: "event list \<Rightarrow> event list" where
  "started tr = filter (\<lambda>e. e = BeginWrite \<or> e = BeginRead) tr"

definition completed :: "event list \<Rightarrow> event list" where
  "completed tr = filter (\<lambda>e. e = EndWrite \<or> e = EndRead) tr"

definition flip :: "event \<Rightarrow> event" where
  "flip e = (case e of BeginWrite \<Rightarrow> BeginRead | BeginRead \<Rightarrow> BeginWrite
             | EndWrite \<Rightarrow> EndRead | EndRead \<Rightarrow> EndWrite | FailRead \<Rightarrow> FailRead)"

fun alternating :: "event \<Rightarrow> event list \<Rightarrow> bool" where
  "alternating nxt [] = True"
| "alternating nxt (e # es) = (e = nxt \<and> alternating (flip nxt) es)"

section \<open>Named resources: create, open, close\<close>

text \<open>
  The operating system keeps named semaphores (name to count) and named shared memory
  objects (name to size and content). \<^verbatim>\<open>sem_open\<close>, \<^verbatim>\<open>shm_open\<close>, \<^verbatim>\<open>ftruncate\<close>
  and \<^verbatim>\<open>mmap\<close> can fail for reasons outside the program; \<open>faults\<close> says which calls
  of one invocation do. A handle in \<^verbatim>\<open>shared_memory_t\<close> is the name of the object it
  refers to, or \<open>None\<close> for \<^verbatim>\<open>SEM_FAILED\<close>, a negative descriptor and
  \<^verbatim>\<open>MAP_FAILED\<close>. The fields \<^verbatim>\<open>size\<close>, \<^verbatim>\<open>id\<close> and \<^verbatim>\<open>total\<close> of the struct are
  never read or written and are left out.
\<close>

record shm_obj =
  shm_size :: nat
  shm_seg :: segment

record os =
  sems :: "string \<rightharpoonup> nat"
  shms :: "string \<rightharpoonup> shm_obj"

datatype trunc = TruncOk | TruncEINVAL | TruncError

record faults =
  wsem_fails :: bool
  rsem_fails :: bool
  shm_fails :: bool
  trunc_result :: trunc
  mmap_fails :: bool

definition no_faults :: faults where
  "no_faults = \<lparr>wsem_fails = False, rsem_fails = False, shm_fails = False,
                trunc_result = TruncOk, mmap_fails = False\<rparr>"

record shared_memory_t =
  h_fd :: "string option"
  h_data :: "string option"
  h_r_sem :: "string option"
  h_w_sem :: "string option"

text \<open>
  \<^verbatim>\<open>sem_open(name, O_CREAT | O_RDWR, _MODE, v)\<close>: without \<^verbatim>\<open>O_EXCL\<close> an existing
  semaphore is opened as it is and \<open>v\<close> is ignored; a missing one is created with
  count \<open>v\<close>.
\<close>

definition sem_open :: "os \<Rightarrow> bool \<Rightarrow> string \<Rightarrow> nat \<Rightarrow> string option \<times> os" where
  "sem_open s fails name v =
     (if fails then (None, s)
      else (Some name,
            (case sems s name of
               None \<Rightarrow> s\<lparr>sems := (sems s)(name \<mapsto> v)\<rparr>
             | Some c \<Rightarrow> s)))"

definition sem_unlink :: "os \<Rightarrow> string \<Rightarrow> os" where
  "sem_unlink s name = s\<lparr>sems := (sems s)(name := None)\<rparr>"

text \<open>\<^verbatim>\<open>shm_open(name, O_CREAT | O_RDWR, _MODE)\<close>: a missing object is created empty.\<close>

definition shm_open :: "os \<Rightarrow> bool \<Rightarrow> string \<Rightarrow> string option \<times> os" where
  "shm_open s fails name =
     (if fails then (None, s)
      else (Some name,
            (case shms s name of
               None \<Rightarrow> s\<lparr>shms := (shms s)(name \<mapsto> \<lparr>shm_size = 0, shm_seg = zero_segment\<rparr>)\<rparr>
             | Some obj \<Rightarrow> s)))"

definition shm_unlink :: "os \<Rightarrow> string \<Rightarrow> os" where
  "shm_unlink s name = s\<lparr>shms := (shms s)(name := None)\<rparr>"

text \<open>
  \<^verbatim>\<open>ftruncate(fd, n)\<close> returns its result and whether \<^verbatim>\<open>errno\<close> is \<^verbatim>\<open>EINVAL\<close>;
  on success the object has size \<open>n\<close>.
\<close>

definition ftruncate :: "os \<Rightarrow> trunc \<Rightarrow> string \<Rightarrow> nat \<Rightarrow> int \<times> bool \<times> os" where
  "ftruncate s t name n =
     (case t of
        TruncOk \<Rightarrow>
          (0, False,
           (case shms s name of
              None \<Rightarrow> s
            | Some obj \<Rightarrow> s\<lparr>shms := (shms s)(name \<mapsto> obj\<lparr>shm_size := n\<rparr>)\<rparr>))
      | TruncEINVAL \<Rightarrow> (- 1, True, s)
      | TruncError \<Rightarrow> (- 1, False, s))"

definition mmap :: "bool \<Rightarrow> string \<Rightarrow> string option" where
  "mmap fails name = (if fails then None else Some name)"

definition create_shared_memory ::
  "os \<Rightarrow> faults \<Rightarrow> shared_memory_t \<Rightarrow> string \<Rightarrow> string \<Rightarrow> string \<Rightarrow> int \<times> shared_memory_t \<times> os" where
  "create_shared_memory s f self name write_sem_name read_sem_name =
     (case sem_open s (wsem_fails f) write_sem_name 1 of (wh, s1) \<Rightarrow>
      let self1 = self\<lparr>h_w_sem := wh\<rparr> in
      if wh = None then (1, self1, sem_unlink s1 write_sem_name)
      else
     (case sem_open s1 (rsem_fails f) read_sem_name 0 of (rh, s2) \<Rightarrow>
      let self2 = self1\<lparr>h_r_sem := rh\<rparr> in
      if rh = None then (1, self2, sem_unlink (sem_unlink s2 read_sem_name) write_sem_name)
      else
     (case shm_open s2 (shm_fails f) name of (fdh, s3) \<Rightarrow>
      let self3 = self2\<lparr>h_fd := fdh\<rparr> in
      if fdh = None
      then (1, self3, shm_unlink (sem_unlink (sem_unlink s3 write_sem_name) read_sem_name) name)
      else
     (case ftruncate s3 (trunc_result f) name MAX_BYTES of (rc, einval, s4) \<Rightarrow>
      if rc < 0 \<and> \<not> einval
      then (1, self3, sem_unlink (sem_unlink (shm_unlink s4 name) write_sem_name) read_sem_name)
      else
        let self4 = self3\<lparr>h_data := mmap (mmap_fails f) name\<rparr> in
        if h_data self4 = None
        then (1, self4, shm_unlink (sem_unlink (sem_unlink s4 write_sem_name) read_sem_name) name)
        else (0, self4, s4)))))"

definition open_shared_memory ::
  "os \<Rightarrow> faults \<Rightarrow> shared_memory_t \<Rightarrow> string \<Rightarrow> string \<Rightarrow> string \<Rightarrow> int \<times> shared_memory_t \<times> os" where
  "open_shared_memory s f self name write_sem_name read_sem_name =
     (case sem_open s (wsem_fails f) write_sem_name 1 of (wh, s1) \<Rightarrow>
      let self1 = self\<lparr>h_w_sem := wh\<rparr> in
      if wh = None then (1, self1, sem_unlink s1 write_sem_name)
      else
     (case sem_open s1 (rsem_fails f) read_sem_name 0 of (rh, s2) \<Rightarrow>
      let self2 = self1\<lparr>h_r_sem := rh\<rparr> in
      if rh = None then (1, self2, sem_unlink (sem_unlink s2 write_sem_name) read_sem_name)
      else
     (case shm_open s2 (shm_fails f) name of (fdh, s3) \<Rightarrow>
      let self3 = self2\<lparr>h_fd := fdh\<rparr> in
      if fdh = None
      then (1, self3, shm_unlink (sem_unlink (sem_unlink s3 write_sem_name) read_sem_name) name)
      else
     (case ftruncate s3 (trunc_result f) name MAX_BYTES of (rc, einval, s4) \<Rightarrow>
      if rc < 0 \<and> \<not> einval
      then (1, self3, sem_unlink (sem_unlink (shm_unlink s4 name) write_sem_name) read_sem_name)
      else
        let self4 = self3\<lparr>h_data := mmap (mmap_fails f) name\<rparr> in
        if h_data self4 = None
        then (1, self4, sem_unlink (sem_unlink (shm_unlink s4 name) write_sem_name) read_sem_name)
        else (0, self4, s4)))))"

definition close_shared_memory :: "os \<Rightarrow> string \<Rightarrow> string \<Rightarrow> string \<Rightarrow> os" where
  "close_shared_memory s name wsem_name rsem_name =
     sem_unlink (sem_unlink (shm_unlink s name) wsem_name) rsem_name"

text \<open>A live channel: the three names exist and the region has its full size.\<close>

definition live :: "os \<Rightarrow> string \<Rightarrow> string \<Rightarrow> string \<Rightarrow> bool" where
  "live s name wsem_name rsem_name =
     (case (shms s name, sems s wsem_name, sems s rsem_name) of
        (Some obj, Some cw, Some cr) \<Rightarrow> shm_size obj = MAX_BYTES
      | _ \<Rightarrow> False)"

section \<open>Notions used in the statements\<close>

subsection \<open>The handshake\<close>

text \<open>
  The invariant of the handshake: at most one permit exists, as a count of R or W or as
  an invocation between its wait and its post. With it, the state tells which
  transaction starts next and which completes next.
\<close>

definition hs_inv :: "hs \<Rightarrow> bool" where
  "hs_inv s = (hs_R s + hs_W s + writing s + reading s \<le> 1)"

definition expect_begin :: "hs \<Rightarrow> event" where
  "expect_begin s = (if hs_W s = 1 \<or> reading s = 1 then BeginWrite else BeginRead)"

definition expect_end :: "hs \<Rightarrow> event" where
  "expect_end s = (if hs_W s = 1 \<or> writing s = 1 then EndWrite else EndRead)"

subsection \<open>Fragments and paired runs\<close>

text \<open>
  A list of calls of \<^verbatim>\<open>write_shared_memory\<close> run the way the loop of
  \<^verbatim>\<open>send_item\<close> runs them: one after the other, returning 1 at the first call that
  does not return 0.
\<close>

fun run_calls :: "platform \<Rightarrow> world \<Rightarrow> (byte list \<times> nat \<times> nat \<times> nat) list \<Rightarrow> (int \<times> world) outcome" where
  "run_calls p w [] = Returns (0, w)"
| "run_calls p w ((d, ulen, ident, tot) # cs) =
     (case write_shared_memory p w d ulen ident tot of
        Returns (r, w') \<Rightarrow> if r \<noteq> 0 then Returns (1, w') else run_calls p w' cs
      | Blocks \<Rightarrow> Blocks
      | Aborts \<Rightarrow> Aborts
      | Undefined f \<Rightarrow> Undefined f)"

text \<open>
  The length of fragment \<open>i\<close> of a message of length \<open>len\<close>: \<open>maxlen\<close>, and the
  remainder for the last one.
\<close>

definition frag_len :: "platform \<Rightarrow> nat \<Rightarrow> nat \<Rightarrow> nat" where
  "frag_len p len i =
     (if i = chunk_count p len - 1 then len - maxlen p * (chunk_count p len - 1) else maxlen p)"

text \<open>
  A call that passes the assertion of \<^verbatim>\<open>write_shared_memory\<close> and whose buffer holds
  the bytes it copies.
\<close>

definition valid_call :: "platform \<Rightarrow> byte list \<times> nat \<times> nat \<times> nat \<Rightarrow> bool" where
  "valid_call p c = (case c of (d, ulen, ident, tot) \<Rightarrow> write_asserts p ulen \<and> ulen \<le> length d)"

text \<open>
  A region content carries a call of \<^verbatim>\<open>write_shared_memory\<close> when its header and the
  payload bytes the header counts are those of the call.
\<close>

definition carries :: "segment \<Rightarrow> byte list \<times> nat \<times> nat \<times> nat \<Rightarrow> bool" where
  "carries s c =
     (case c of (d, ulen, ident, tot) \<Rightarrow>
        seg_id s = ident \<and> seg_len s = ulen \<and> seg_total s = tot \<and>
        (\<forall>k < ulen. seg_payload s k = d ! k))"

text \<open>
  What a sender has published, as the collecting peer at the other end of its channel
  saw it: the region contents the peer has consumed, and the one still waiting in the
  region when R is set.
\<close>

definition publications :: "world \<Rightarrow> segment list" where
  "publications w =
     (case peer w of
        Collects ss \<Rightarrow> ss @ (if 0 < r_sem w then [seg w] else [])
      | _ \<Rightarrow> [])"

text \<open>
  A channel whose peer is a reader that will make enough reads for \<open>k\<close> more writes
  to return: the channel is writable and the reader makes at least \<open>k - 1\<close> reads, or
  a fragment the reader can consume is published and the reader makes at least \<open>k\<close>
  reads.
\<close>

definition reader_ahead :: "platform \<Rightarrow> world \<Rightarrow> nat \<Rightarrow> bool" where
  "reader_ahead p w k =
     (case peer w of
        Reads n \<Rightarrow>
          (w_sem w = 1 \<and> r_sem w = 0 \<and> k \<le> n + 1) \<or>
          (w_sem w = 0 \<and> r_sem w = 1 \<and> k \<le> n \<and> 0 < seg_len (seg w) \<and>
           seg_len (seg w) \<le> MAX_BYTES - header_size p)
      | _ \<Rightarrow> False)"

subsection \<open>Failing invocations of create and open\<close>

text \<open>
  An invocation fails when one of its calls fails, a sizing failure with
  \<^verbatim>\<open>EINVAL\<close> apart.
\<close>

definition invocation_fails :: "faults \<Rightarrow> bool" where
  "invocation_fails f =
     (wsem_fails f \<or> rsem_fails f \<or> shm_fails f \<or> trunc_result f = TruncError \<or> mmap_fails f)"

section \<open>Concrete inputs\<close>

text \<open>
  The channel right after \<^verbatim>\<open>create_shared_memory\<close>: a zeroed region, R = 0 and
  W = 1; a heap with no block and no allocation failure ahead; the channel with a
  fragment published (R = 1, W = 0).
\<close>

definition fresh_world :: "peer \<Rightarrow> world" where
  "fresh_world q = \<lparr>seg = zero_segment, r_sem = 0, w_sem = 1, peer = q\<rparr>"

definition empty_heap :: heap where
  "empty_heap = \<lparr>blocks = Map.empty, next_addr = 0, plan = []\<rparr>"

definition published :: "segment \<Rightarrow> peer \<Rightarrow> world" where
  "published s q = \<lparr>seg = s, r_sem = 1, w_sem = 0, peer = q\<rparr>"

text \<open>
  Region contents: a fragment whose header reports length 0; a well-formed first
  fragment of a message of \<open>tot\<close> fragments of two bytes; a fragment whose header
  reports a length above the capacity; and one whose header reports the capacity itself,
  more than the region holds behind the header.
\<close>

definition zero_len_fragment :: segment where
  "zero_len_fragment = \<lparr>seg_id = 1, seg_len = 0, seg_total = 3, seg_payload = (\<lambda>_. 0)\<rparr>"

definition first_fragment :: "nat \<Rightarrow> segment" where
  "first_fragment tot = \<lparr>seg_id = 0, seg_len = 2, seg_total = tot, seg_payload = (\<lambda>_. 7)\<rparr>"

definition oversize_fragment :: segment where
  "oversize_fragment = \<lparr>seg_id = 1, seg_len = 4000001, seg_total = 3, seg_payload = (\<lambda>_. 0)\<rparr>"

definition capacity_fragment :: segment where
  "capacity_fragment = \<lparr>seg_id = 0, seg_len = 4000000, seg_total = 1, seg_payload = (\<lambda>_. 0)\<rparr>"

text \<open>
  States of the operating system and of the oracle: nothing exists; no handle is set;
  only the sizing fails, with \<^verbatim>\<open>EINVAL\<close>; only \<^verbatim>\<open>shm_open\<close> fails; the state after
  one successful create of the triple /seg, /wsem, /rsem, and the state after closing
  it again; a state in which only the reader semaphore exists, with count 1.
\<close>

definition empty_os :: os where
  "empty_os = \<lparr>sems = Map.empty, shms = Map.empty\<rparr>"

definition no_handles :: shared_memory_t where
  "no_handles = \<lparr>h_fd = None, h_data = None, h_r_sem = None, h_w_sem = None\<rparr>"

definition einval_faults :: faults where
  "einval_faults = no_faults\<lparr>trunc_result := TruncEINVAL\<rparr>"

definition shm_faults :: faults where
  "shm_faults = no_faults\<lparr>shm_fails := True\<rparr>"

definition os_after_create :: os where
  "os_after_create =
     snd (snd (create_shared_memory empty_os no_faults no_handles ''/seg'' ''/wsem'' ''/rsem''))"

definition os_after_close :: os where
  "os_after_close = close_shared_memory os_after_create ''/seg'' ''/wsem'' ''/rsem''"

definition reader_only_os :: os where
  "reader_only_os = \<lparr>sems = [''/rsem'' \<mapsto> 1], shms = Map.empty\<rparr>"

section \<open>Constants\<close>

lemma size_mod_pos: "0 < size_mod p"
  by (simp add: size_mod_def)

lemma sz_id: "0 \<le> x \<Longrightarrow> x < int (size_mod p) \<Longrightarrow> sz p x = nat x"
  by (simp add: sz_def)

lemma maxlen_eq:
  assumes "platform_ok p"
  shows "maxlen p = MAX_BYTES - header_size p - sizeof_ptr p"
proof -
  let ?x = "int MAX_BYTES - int (sizeof_unsigned p) - int (sizeof_size_t p) * 2 - int (sizeof_ptr p)"
  from assms have "0 \<le> ?x" "?x < int (size_mod p)"
    by (auto simp: platform_ok_def)
  then have "maxlen p = nat ?x"
    unfolding maxlen_def by (rule sz_id)
  then show ?thesis
    by (simp add: header_size_def off_payload_def nat_diff_distrib')
qed

lemma write_limit_eq:
  assumes "platform_ok p"
  shows "write_limit p = MAX_BYTES - header_size p"
proof -
  let ?x = "int MAX_BYTES - int (sizeof_size_t p) * 2 - int (sizeof_unsigned p)"
  from assms have "0 \<le> ?x" "?x < int (size_mod p)"
    by (auto simp: platform_ok_def)
  then have "write_limit p = nat ?x"
    unfolding write_limit_def by (rule sz_id)
  then show ?thesis
    by (simp add: header_size_def off_payload_def nat_diff_distrib')
qed

lemma platform_ok_lp64: "platform_ok lp64"
  by (simp add: platform_ok_def lp64_def MAX_BYTES_def size_mod_def)

lemma maxlen_pos:
  assumes "platform_ok p"
  shows "0 < maxlen p"
proof -
  from assms have "sizeof_unsigned p + 2 * sizeof_size_t p + sizeof_ptr p < MAX_BYTES"
    by (simp add: platform_ok_def)
  then show ?thesis
    by (simp add: maxlen_eq [OF assms] header_size_def off_payload_def)
qed

lemma maxlen_le_write_limit:
  assumes "platform_ok p"
  shows "maxlen p < write_limit p"
proof -
  from assms have "sizeof_unsigned p + 2 * sizeof_size_t p + sizeof_ptr p < MAX_BYTES"
    and "0 < sizeof_ptr p"
    by (simp_all add: platform_ok_def)
  then show ?thesis
    by (simp add: maxlen_eq [OF assms] write_limit_eq [OF assms] header_size_def off_payload_def)
qed

lemma write_returns_asserts:
  "write_shared_memory p w data len ident tot = Returns r \<Longrightarrow> write_asserts p len"
  by (simp add: write_shared_memory_def split: if_splits)

section \<open>C6: the chunking limit\<close>

lemma maxlen_lp64: "maxlen lp64 = 3999972"
  by (simp add: maxlen_def sz_def size_mod_def lp64_def MAX_BYTES_def)

lemma write_limit_lp64: "write_limit lp64 = 3999980"
  by (simp add: write_limit_def sz_def size_mod_def lp64_def MAX_BYTES_def)

lemma header_size_lp64: "header_size lp64 = 20"
  by (simp add: header_size_def off_payload_def lp64_def)

text \<open>
  Claim C6, as the code has it. The chunking limit \<open>maxlen\<close> is the capacity minus the
  header size minus the size of a pointer (the layout comment of the source counts a
  \<^verbatim>\<open>void *\<close> as a fourth field), so it lies strictly below the capacity minus the
  header size. The header is the three fields id, length and count, stored back to back
  from offset 0, and the payload starts right behind them. The assertion of
  \<^verbatim>\<open>write_shared_memory\<close> accepts exactly the lengths \<open>0 < len \<le> MAX_BYTES - header_size\<close>,
  and a write that returns was given such a length.
\<close>

theorem maxlen_below_capacity_minus_header:
  assumes "platform_ok p"
  shows "maxlen p = MAX_BYTES - header_size p - sizeof_ptr p \<and>
         maxlen p < MAX_BYTES - header_size p \<and>
         off_id p = 0 \<and> off_len p = off_id p + sizeof_unsigned p \<and>
         off_total p = off_len p + sizeof_size_t p \<and>
         off_payload p = off_total p + sizeof_size_t p \<and>
         header_size p = off_payload p \<and>
         (\<forall>len. write_asserts p len \<longleftrightarrow> 0 < len \<and> len \<le> MAX_BYTES - header_size p) \<and>
         (\<forall>w data len ident tot r.
            write_shared_memory p w data len ident tot = Returns r \<longrightarrow>
            0 < len \<and> len \<le> MAX_BYTES - header_size p)"
proof -
  have lim: "write_limit p = MAX_BYTES - header_size p"
    using assms by (rule write_limit_eq)
  have a: "maxlen p = MAX_BYTES - header_size p - sizeof_ptr p"
    using assms by (rule maxlen_eq)
  have b: "maxlen p < MAX_BYTES - header_size p"
    using maxlen_le_write_limit [OF assms] lim by simp
  have c: "\<forall>len. write_asserts p len \<longleftrightarrow> 0 < len \<and> len \<le> MAX_BYTES - header_size p"
    by (simp add: write_asserts_def lim)
  have d: "\<forall>w data len ident tot r.
            write_shared_memory p w data len ident tot = Returns r \<longrightarrow>
            0 < len \<and> len \<le> MAX_BYTES - header_size p"
    using write_returns_asserts c by blast
  show ?thesis
    using a b c d by (simp add: off_id_def off_len_def off_total_def off_payload_def header_size_def)
qed


text \<open>
  The claim as stated, that \<open>maxlen\<close> is the capacity minus the header size, fails on
  the 64-bit platform: 3999972 against 3999980.
\<close>

theorem maxlen_lp64_counterexample: "maxlen lp64 \<noteq> MAX_BYTES - header_size lp64"
  by (simp add: maxlen_lp64 header_size_lp64) (simp add: MAX_BYTES_def)

lemma write_fresh_lp64:
  "\<exists>w. write_shared_memory lp64 (fresh_world Idle) [1, 2, 3] 3 0 1 = Returns (0, w)"
  by (simp add: write_shared_memory_def write_asserts_def write_limit_lp64 fresh_world_def
      sem_wait_w_def)

theorem maxlen_below_capacity_minus_header_witness:
  "platform_ok lp64 \<and> maxlen lp64 = 3999972 \<and> MAX_BYTES - header_size lp64 = 3999980 \<and>
   sizeof_ptr lp64 = 8 \<and> write_asserts lp64 3999980 \<and>
   (\<exists>w. write_shared_memory lp64 (fresh_world Idle) [1, 2, 3] 3 0 1 = Returns (0, w)) \<and>
   (0::nat) < 3 \<and> 3 \<le> MAX_BYTES - header_size lp64"
proof -
  note t = maxlen_below_capacity_minus_header [OF platform_ok_lp64]
  from t have "maxlen lp64 = MAX_BYTES - header_size lp64 - sizeof_ptr lp64"
    by (rule conjunct1)
  then have a: "maxlen lp64 = 3999972"
    by (simp add: header_size_lp64 MAX_BYTES_def) (simp add: lp64_def)
  have b: "MAX_BYTES - header_size lp64 = 3999980"
    by (simp add: header_size_lp64 MAX_BYTES_def)
  from t have "write_asserts lp64 3999980 \<longleftrightarrow> 0 < (3999980::nat) \<and> 3999980 \<le> MAX_BYTES - header_size lp64"
    by blast
  then have c: "write_asserts lp64 3999980"
    by (simp add: b)
  have d: "sizeof_ptr lp64 = 8"
    by (simp add: lp64_def)
  show ?thesis
    using a b c d write_fresh_lp64 platform_ok_lp64 by simp
qed

section \<open>C3: the handshake\<close>

lemma hs_step_inv: "hs_inv s \<Longrightarrow> hs_step s e = Some s' \<Longrightarrow> hs_inv s'"
  by (cases e) (auto simp: hs_inv_def split: if_splits)

lemma hs_run_inv: "hs_inv s \<Longrightarrow> hs_run s tr = Some s' \<Longrightarrow> hs_inv s'"
proof (induction tr arbitrary: s)
  case Nil
  then show ?case by simp
next
  case (Cons e es)
  then show ?case
    by (auto split: option.splits dest: hs_step_inv)
qed

lemma hs_dead_step:
  "hs_R s = 0 \<Longrightarrow> hs_W s = 0 \<Longrightarrow> writing s = 0 \<Longrightarrow> reading s = 0 \<Longrightarrow> hs_step s e = None"
  by (cases e) simp_all

lemma hs_dead_run:
  "hs_R s = 0 \<Longrightarrow> hs_W s = 0 \<Longrightarrow> writing s = 0 \<Longrightarrow> reading s = 0 \<Longrightarrow>
   hs_run s tr = Some s' \<Longrightarrow> tr = []"
  by (cases tr) (simp_all add: hs_dead_step)

lemma hs_run_started:
  "hs_inv s \<Longrightarrow> hs_run s tr = Some s' \<Longrightarrow> alternating (expect_begin s) (started tr)"
proof (induction tr arbitrary: s)
  case Nil
  then show ?case by (simp add: started_def)
next
  case (Cons e es)
  from Cons.prems obtain s1 where st: "hs_step s e = Some s1" and run: "hs_run s1 es = Some s'"
    by (auto split: option.splits)
  have inv1: "hs_inv s1"
    using Cons.prems(1) st by (rule hs_step_inv)
  have ih: "alternating (expect_begin s1) (started es)"
    using inv1 run by (rule Cons.IH)
  show ?case
  proof (cases e)
    case BeginWrite
    with st Cons.prems(1) have "expect_begin s = BeginWrite" "expect_begin s1 = BeginRead"
      by (auto simp: hs_inv_def expect_begin_def split: if_splits)
    with ih BeginWrite show ?thesis
      by (simp add: started_def flip_def)
  next
    case EndWrite
    with st Cons.prems(1) have "expect_begin s1 = expect_begin s"
      by (auto simp: hs_inv_def expect_begin_def split: if_splits)
    with ih EndWrite show ?thesis
      by (simp add: started_def)
  next
    case BeginRead
    with st Cons.prems(1) have "expect_begin s = BeginRead" "expect_begin s1 = BeginWrite"
      by (auto simp: hs_inv_def expect_begin_def split: if_splits)
    with ih BeginRead show ?thesis
      by (simp add: started_def flip_def)
  next
    case EndRead
    with st Cons.prems(1) have "expect_begin s1 = expect_begin s"
      by (auto simp: hs_inv_def expect_begin_def split: if_splits)
    with ih EndRead show ?thesis
      by (simp add: started_def)
  next
    case FailRead
    with st Cons.prems(1) have "hs_R s1 = 0" "hs_W s1 = 0" "writing s1 = 0" "reading s1 = 0"
      by (auto simp: hs_inv_def split: if_splits)
    then have "es = []"
      using run by (rule hs_dead_run)
    with FailRead show ?thesis
      by (simp add: started_def)
  qed
qed

lemma hs_run_completed:
  "hs_inv s \<Longrightarrow> hs_run s tr = Some s' \<Longrightarrow> alternating (expect_end s) (completed tr)"
proof (induction tr arbitrary: s)
  case Nil
  then show ?case by (simp add: completed_def)
next
  case (Cons e es)
  from Cons.prems obtain s1 where st: "hs_step s e = Some s1" and run: "hs_run s1 es = Some s'"
    by (auto split: option.splits)
  have inv1: "hs_inv s1"
    using Cons.prems(1) st by (rule hs_step_inv)
  have ih: "alternating (expect_end s1) (completed es)"
    using inv1 run by (rule Cons.IH)
  show ?case
  proof (cases e)
    case BeginWrite
    with st Cons.prems(1) have "expect_end s1 = expect_end s"
      by (auto simp: hs_inv_def expect_end_def split: if_splits)
    with ih BeginWrite show ?thesis
      by (simp add: completed_def)
  next
    case EndWrite
    with st Cons.prems(1) have "expect_end s = EndWrite" "expect_end s1 = EndRead"
      by (auto simp: hs_inv_def expect_end_def split: if_splits)
    with ih EndWrite show ?thesis
      by (simp add: completed_def flip_def)
  next
    case BeginRead
    with st Cons.prems(1) have "expect_end s1 = expect_end s"
      by (auto simp: hs_inv_def expect_end_def split: if_splits)
    with ih BeginRead show ?thesis
      by (simp add: completed_def)
  next
    case EndRead
    with st Cons.prems(1) have "expect_end s = EndRead" "expect_end s1 = EndWrite"
      by (auto simp: hs_inv_def expect_end_def split: if_splits)
    with ih EndRead show ?thesis
      by (simp add: completed_def flip_def)
  next
    case FailRead
    with st Cons.prems(1) have "hs_R s1 = 0" "hs_W s1 = 0" "writing s1 = 0" "reading s1 = 0"
      by (auto simp: hs_inv_def split: if_splits)
    then have "es = []"
      using run by (rule hs_dead_run)
    with FailRead show ?thesis
      by (simp add: completed_def)
  qed
qed

lemma write_is_begin_end:
  assumes "peer w = Idle" and "write_shared_memory p w data len ident tot = Returns (rc, w')"
  shows "hs_run \<lparr>hs_R = r_sem w, hs_W = w_sem w, writing = 0, reading = 0\<rparr> [BeginWrite, EndWrite]
         = Some \<lparr>hs_R = r_sem w', hs_W = w_sem w', writing = 0, reading = 0\<rparr>"
  using assms
  by (auto simp: write_shared_memory_def sem_wait_w_def sem_post_r_def peer_step_def Let_def
      split: if_splits option.splits)

lemma read_is_begin_end:
  assumes "peer w = Idle" and "read_shared_memory p w h d0 = Returns r"
  shows "hs_run \<lparr>hs_R = r_sem w, hs_W = w_sem w, writing = 0, reading = 0\<rparr>
           [BeginRead, if rd_rc r = 0 then EndRead else FailRead]
         = Some \<lparr>hs_R = r_sem (rd_world r), hs_W = w_sem (rd_world r), writing = 0, reading = 0\<rparr>"
  using assms
  by (auto simp: read_shared_memory_def sem_wait_r_def sem_post_w_def peer_step_def Let_def obind_def
      split: if_splits option.splits prod.splits outcome.splits)

text \<open>
  Claim C3. From the initial state (R, W) = (0, 1), whatever trace of semaphore events
  the racing invocations of \<^verbatim>\<open>write_shared_memory\<close> and \<^verbatim>\<open>read_shared_memory\<close>
  produce, every state reached has (R, W) among (0, 1), (0, 0) and (1, 0), never (1, 1),
  at most one invocation is between its wait and its post, and both the transactions
  started and the transactions completed alternate write, read, write, read.
\<close>

theorem handshake_alternates:
  assumes "hs_run hs_init tr = Some s"
  shows "(hs_R s, hs_W s) \<in> {(0, 1), (0, 0), (1, 0)} \<and> (hs_R s, hs_W s) \<noteq> (1, 1) \<and>
         writing s + reading s \<le> 1 \<and>
         alternating BeginWrite (started tr) \<and> alternating EndWrite (completed tr)"
proof -
  have i0: "hs_inv hs_init"
    by (simp add: hs_inv_def hs_init_def)
  have "hs_inv s"
    using i0 assms by (rule hs_run_inv)
  then have a: "(hs_R s, hs_W s) \<in> {(0, 1), (0, 0), (1, 0)}" "(hs_R s, hs_W s) \<noteq> (1, 1)"
    "writing s + reading s \<le> 1"
    by (auto simp: hs_inv_def)
  have b: "alternating BeginWrite (started tr)"
    using hs_run_started [OF i0 assms] by (simp add: expect_begin_def hs_init_def)
  have c: "alternating EndWrite (completed tr)"
    using hs_run_completed [OF i0 assms] by (simp add: expect_end_def hs_init_def)
  show ?thesis
    using a b c by simp
qed

theorem handshake_alternates_witness:
  "hs_run hs_init [BeginWrite, EndWrite, BeginRead, EndRead, BeginWrite]
     = Some \<lparr>hs_R = 0, hs_W = 0, writing = 1, reading = 0\<rparr> \<and>
   alternating BeginWrite (started [BeginWrite, EndWrite, BeginRead, EndRead, BeginWrite]) \<and>
   alternating EndWrite (completed [BeginWrite, EndWrite, BeginRead, EndRead, BeginWrite])"
proof -
  have r: "hs_run hs_init [BeginWrite, EndWrite, BeginRead, EndRead, BeginWrite]
     = Some \<lparr>hs_R = 0, hs_W = 0, writing = 1, reading = 0\<rparr>"
    by (simp add: hs_init_def)
  from handshake_alternates [OF r] r show ?thesis
    by simp
qed

section \<open>C8, C4, C5: create, open and close\<close>

lemmas os_defs = sem_open_def sem_unlink_def shm_open_def shm_unlink_def ftruncate_def mmap_def

lemma create_rc:
  "create_shared_memory s f self name wn rn = (rc, self', s') \<Longrightarrow>
   rc = (if invocation_fails f then 1 else 0)"
  by (auto simp: create_shared_memory_def invocation_fails_def os_defs Let_def
      split: if_splits trunc.splits option.splits)

lemma create_error_unlinks:
  "create_shared_memory s f self name wn rn = (rc, self', s') \<Longrightarrow> rc \<noteq> 0 \<Longrightarrow>
   sems s' wn = None \<and> (\<not> wsem_fails f \<longrightarrow> sems s' rn = None) \<and>
   (\<not> wsem_fails f \<and> \<not> rsem_fails f \<longrightarrow> shms s' name = None)"
  by (auto simp: create_shared_memory_def os_defs Let_def
      split: if_splits trunc.splits option.splits)

lemma create_success_names:
  "create_shared_memory s f self name wn rn = (rc, self', s') \<Longrightarrow> rc = 0 \<Longrightarrow>
   sems s' wn \<noteq> None \<and> sems s' rn \<noteq> None \<and> shms s' name \<noteq> None \<and>
   h_w_sem self' = Some wn \<and> h_r_sem self' = Some rn \<and> h_fd self' = Some name \<and>
   h_data self' = Some name"
  by (auto simp: create_shared_memory_def os_defs Let_def
      split: if_splits trunc.splits option.splits)

text \<open>
  Claim C8, as the code has it. \<^verbatim>\<open>create_shared_memory\<close> returns an error exactly
  when the creation of the writer semaphore, of the reader semaphore or of the segment
  fails, when the mapping fails, or when the sizing fails with an error other than
  \<^verbatim>\<open>EINVAL\<close>; and then the names of the resources acquired earlier in the call are
  unlinked in the state it leaves: the writer semaphore's, the reader semaphore's once
  the writer semaphore was opened, the region's once both semaphores were opened.
\<close>

theorem create_rollback:
  assumes "create_shared_memory s f self name wn rn = (rc, self', s')"
  shows "(rc = 1 \<longleftrightarrow> wsem_fails f \<or> rsem_fails f \<or> shm_fails f \<or> trunc_result f = TruncError
                    \<or> mmap_fails f) \<and>
         (rc = 0 \<longleftrightarrow> \<not> (wsem_fails f \<or> rsem_fails f \<or> shm_fails f \<or> trunc_result f = TruncError
                    \<or> mmap_fails f)) \<and>
         (rc \<noteq> 0 \<longrightarrow>
            sems s' wn = None \<and> (\<not> wsem_fails f \<longrightarrow> sems s' rn = None) \<and>
            (\<not> wsem_fails f \<and> \<not> rsem_fails f \<longrightarrow> shms s' name = None))"
  using create_rc [OF assms] create_error_unlinks [OF assms]
  by (auto simp: invocation_fails_def split: if_splits)

text \<open>
  The claim as stated fails for the sizing step: when \<^verbatim>\<open>ftruncate\<close> fails with
  \<^verbatim>\<open>EINVAL\<close> the code jumps to the mapping, returns 0, and all three resources stay.
\<close>

theorem create_einval_counterexample:
  "trunc_result einval_faults \<noteq> TruncOk \<and>
   fst (create_shared_memory empty_os einval_faults no_handles ''/seg'' ''/wsem'' ''/rsem'') = 0 \<and>
   sems (snd (snd (create_shared_memory empty_os einval_faults no_handles ''/seg'' ''/wsem'' ''/rsem'')))
     ''/wsem'' = Some 1 \<and>
   sems (snd (snd (create_shared_memory empty_os einval_faults no_handles ''/seg'' ''/wsem'' ''/rsem'')))
     ''/rsem'' = Some 0 \<and>
   shms (snd (snd (create_shared_memory empty_os einval_faults no_handles ''/seg'' ''/wsem'' ''/rsem'')))
     ''/seg'' \<noteq> None"
  by (simp add: create_shared_memory_def os_defs Let_def einval_faults_def no_faults_def
      empty_os_def no_handles_def)

lemma create_shm_fault:
  "create_shared_memory empty_os shm_faults no_handles ''/seg'' ''/wsem'' ''/rsem''
     = (1, \<lparr>h_fd = None, h_data = None, h_r_sem = Some ''/rsem'', h_w_sem = Some ''/wsem''\<rparr>,
        empty_os)"
  by (simp add: create_shared_memory_def os_defs Let_def shm_faults_def no_faults_def
      empty_os_def no_handles_def)

theorem create_rollback_witness:
  "create_shared_memory empty_os shm_faults no_handles ''/seg'' ''/wsem'' ''/rsem''
     = (1, \<lparr>h_fd = None, h_data = None, h_r_sem = Some ''/rsem'', h_w_sem = Some ''/wsem''\<rparr>,
        empty_os) \<and>
   shm_fails shm_faults \<and> \<not> wsem_fails shm_faults \<and> \<not> rsem_fails shm_faults \<and>
   sems empty_os ''/wsem'' = None \<and> sems empty_os ''/rsem'' = None \<and> shms empty_os ''/seg'' = None"
  using create_rollback [OF create_shm_fault] create_shm_fault
  by (simp add: shm_faults_def no_faults_def empty_os_def)

lemma ftruncate_same_size:
  assumes "shms s name = Some obj" and "shm_size obj = n"
  shows "ftruncate s TruncOk name n = (0, False, s)"
proof -
  from assms(2) have "obj\<lparr>shm_size := n\<rparr> = obj"
    by auto
  moreover from assms(1) have "(shms s)(name \<mapsto> obj) = shms s"
    by (rule map_upd_triv)
  ultimately show ?thesis
    using assms(1) by (simp add: ftruncate_def)
qed

lemma create_live:
  assumes "live s name wn rn" and "\<not> invocation_fails f"
  shows "create_shared_memory s f self name wn rn
         = (0, \<lparr>h_fd = Some name, h_data = Some name, h_r_sem = Some rn, h_w_sem = Some wn\<rparr>, s)"
proof -
  from assms(1) obtain obj cw cr where e: "shms s name = Some obj" "sems s wn = Some cw"
    "sems s rn = Some cr" and sz: "shm_size obj = MAX_BYTES"
    by (auto simp: live_def split: option.splits)
  have t: "ftruncate s (trunc_result f) name MAX_BYTES = (0, False, s) \<or>
           ftruncate s (trunc_result f) name MAX_BYTES = (- 1, True, s)"
    using assms(2) ftruncate_same_size [OF e(1) sz]
    by (cases "trunc_result f") (simp_all add: invocation_fails_def ftruncate_def)
  from assms(2) have nf: "\<not> wsem_fails f" "\<not> rsem_fails f" "\<not> shm_fails f" "\<not> mmap_fails f"
    by (simp_all add: invocation_fails_def)
  from t show ?thesis
    using e nf
    by (cases self)
       (auto simp: create_shared_memory_def sem_open_def shm_open_def mmap_def Let_def)
qed

lemma os_after_create_eq:
  "os_after_create =
     \<lparr>sems = [''/wsem'' \<mapsto> 1, ''/rsem'' \<mapsto> 0],
      shms = [''/seg'' \<mapsto> \<lparr>shm_size = MAX_BYTES, shm_seg = zero_segment\<rparr>]\<rparr>"
  by (simp add: os_after_create_def create_shared_memory_def os_defs Let_def no_faults_def
      empty_os_def no_handles_def)

lemma live_after_create: "live os_after_create ''/seg'' ''/wsem'' ''/rsem''"
  by (simp add: os_after_create_eq live_def)

text \<open>
  Claim C4, as the code has it. No call of \<^verbatim>\<open>create_shared_memory\<close> passes
  \<^verbatim>\<open>O_EXCL\<close>, so a second create of a live triple opens what exists: when none of
  its calls fails (a sizing failure with \<^verbatim>\<open>EINVAL\<close> does not count), it returns 0
  with handles to the same three objects and leaves semaphore counts, region size and
  region content as they were.
\<close>

theorem second_create_succeeds:
  assumes "live s name wn rn"
    and "\<not> wsem_fails f" and "\<not> rsem_fails f" and "\<not> shm_fails f"
    and "trunc_result f \<noteq> TruncError" and "\<not> mmap_fails f"
  shows "create_shared_memory s f self name wn rn
         = (0, \<lparr>h_fd = Some name, h_data = Some name, h_r_sem = Some rn, h_w_sem = Some wn\<rparr>, s)"
  using assms by (intro create_live) (simp_all add: invocation_fails_def)

text \<open>
  The claim as stated fails: the second create of the same triple returns 0, not an
  error.
\<close>

theorem second_create_counterexample:
  "fst (create_shared_memory empty_os no_faults no_handles ''/seg'' ''/wsem'' ''/rsem'') = 0 \<and>
   fst (create_shared_memory
          (snd (snd (create_shared_memory empty_os no_faults no_handles ''/seg'' ''/wsem'' ''/rsem'')))
          no_faults no_handles ''/seg'' ''/wsem'' ''/rsem'') = 0"
  by (simp add: create_shared_memory_def os_defs Let_def no_faults_def empty_os_def no_handles_def)

theorem second_create_succeeds_witness:
  "live os_after_create ''/seg'' ''/wsem'' ''/rsem'' \<and>
   \<not> wsem_fails no_faults \<and> \<not> rsem_fails no_faults \<and> \<not> shm_fails no_faults \<and>
   trunc_result no_faults \<noteq> TruncError \<and> \<not> mmap_fails no_faults \<and>
   create_shared_memory os_after_create no_faults no_handles ''/seg'' ''/wsem'' ''/rsem''
     = (0, \<lparr>h_fd = Some ''/seg'', h_data = Some ''/seg'', h_r_sem = Some ''/rsem'',
             h_w_sem = Some ''/wsem''\<rparr>, os_after_create)"
proof -
  have f: "\<not> wsem_fails no_faults" "\<not> rsem_fails no_faults" "\<not> shm_fails no_faults"
    "trunc_result no_faults \<noteq> TruncError" "\<not> mmap_fails no_faults"
    by (simp_all add: no_faults_def)
  from second_create_succeeds [OF live_after_create f, of no_handles] f live_after_create
  show ?thesis by simp
qed

lemma open_rc:
  "open_shared_memory s f self name wn rn = (rc, self', s') \<Longrightarrow>
   rc = (if invocation_fails f then 1 else 0)"
  by (auto simp: open_shared_memory_def invocation_fails_def os_defs Let_def
      split: if_splits trunc.splits option.splits)

lemma open_keeps_counts:
  "open_shared_memory s f self name wn rn = (0, self', s') \<Longrightarrow> sems s n = Some c \<Longrightarrow>
   sems s' n = Some c"
  by (auto simp: open_shared_memory_def os_defs Let_def
      split: if_splits trunc.splits option.splits)

lemma open_creates_semaphores:
  "open_shared_memory s f self name wn rn = (0, self', s') \<Longrightarrow>
   (sems s wn = None \<longrightarrow> sems s' wn = Some 1) \<and>
   (sems s rn = None \<and> wn \<noteq> rn \<longrightarrow> sems s' rn = Some 0)"
  by (auto simp: open_shared_memory_def os_defs Let_def
      split: if_splits trunc.splits option.splits)

lemma open_region:
  "open_shared_memory s f self name wn rn = (0, self', s') \<Longrightarrow>
   (shms s name = None \<longrightarrow>
      shms s' name = Some \<lparr>shm_size = (if trunc_result f = TruncOk then MAX_BYTES else 0),
                            shm_seg = zero_segment\<rparr>) \<and>
   (\<forall>obj. shms s name = Some obj \<longrightarrow>
      shms s' name = Some (obj\<lparr>shm_size := (if trunc_result f = TruncOk then MAX_BYTES
                                                else shm_size obj)\<rparr>))"
  by (auto simp: open_shared_memory_def os_defs Let_def
      split: if_splits trunc.splits option.splits)

lemma close_unlinks:
  "sems (close_shared_memory s name wn rn) wn = None \<and>
   sems (close_shared_memory s name wn rn) rn = None \<and>
   shms (close_shared_memory s name wn rn) name = None"
  by (simp add: close_shared_memory_def os_defs)

lemma open_after_close_rc:
  "fst (open_shared_memory (close_shared_memory s name wn rn) f self name wn rn)
   = (if invocation_fails f then 1 else 0)"
  using open_rc [of "close_shared_memory s name wn rn" f self name wn rn]
  by (cases "open_shared_memory (close_shared_memory s name wn rn) f self name wn rn") simp

lemma open_after_close_state:
  assumes "\<not> invocation_fails f"
  shows "sems (snd (snd (open_shared_memory (close_shared_memory s name wn rn) f self name wn rn)))
           wn = Some 1"
    and "wn \<noteq> rn \<Longrightarrow>
         sems (snd (snd (open_shared_memory (close_shared_memory s name wn rn) f self name wn rn)))
           rn = Some 0"
    and "shms (snd (snd (open_shared_memory (close_shared_memory s name wn rn) f self name wn rn)))
           name = Some \<lparr>shm_size = (if trunc_result f = TruncOk then MAX_BYTES else 0),
                         shm_seg = zero_segment\<rparr>"
proof -
  let ?c = "close_shared_memory s name wn rn"
  obtain rc self' s' where o: "open_shared_memory ?c f self name wn rn = (rc, self', s')"
    by (cases "open_shared_memory ?c f self name wn rn")
  from open_rc [OF o] assms have "rc = 0" by simp
  with o have o0: "open_shared_memory ?c f self name wn rn = (0, self', s')" by simp
  note c = close_unlinks [of s name wn rn]
  from open_creates_semaphores [OF o0] c
  show "sems (snd (snd (open_shared_memory ?c f self name wn rn))) wn = Some 1"
    and "wn \<noteq> rn \<Longrightarrow> sems (snd (snd (open_shared_memory ?c f self name wn rn))) rn = Some 0"
    by (simp_all add: o0)
  from open_region [OF o0] c
  show "shms (snd (snd (open_shared_memory ?c f self name wn rn))) name
        = Some \<lparr>shm_size = (if trunc_result f = TruncOk then MAX_BYTES else 0),
                shm_seg = zero_segment\<rparr>"
    by (simp add: o0)
qed

text \<open>
  Claim C5, as the code has it. \<^verbatim>\<open>open_shared_memory\<close> opens each name with
  \<^verbatim>\<open>O_CREAT\<close>: it returns 0 exactly when none of its calls fails (a sizing failure
  with \<^verbatim>\<open>EINVAL\<close> does not count), whether the resources existed or not. When it
  returns 0, every semaphore that existed has the count it had, so that (R, W) is what it
  was when both existed. A missing writer semaphore was created with count 1 and a
  missing reader semaphore, under a name of its own, with count 0, next to whatever count
  the other one has: with only a reader semaphore of count 1 in place the result is
  (R, W) = (1, 1). A missing region was created zeroed, of full size when the sizing
  succeeded and of size 0 when it failed with \<^verbatim>\<open>EINVAL\<close>; an existing region keeps
  its content, and gets full size unless the sizing failed with \<^verbatim>\<open>EINVAL\<close>. After
  \<^verbatim>\<open>close_shared_memory\<close> has unlinked the three names, in whatever state,
  \<^verbatim>\<open>open_shared_memory\<close> on them returns 0 exactly when none of its calls fails, and
  has then created the writer semaphore with count 1, the reader semaphore, under a name
  of its own, with count 0, and a zeroed region of the size just described.
\<close>

theorem open_creates_what_is_missing:
  assumes "open_shared_memory s f self name wn rn = (rc, self', s')"
  shows "(rc = 0 \<longleftrightarrow> \<not> (wsem_fails f \<or> rsem_fails f \<or> shm_fails f \<or> trunc_result f = TruncError
                    \<or> mmap_fails f)) \<and>
         (rc = 0 \<longrightarrow>
            (\<forall>n c. sems s n = Some c \<longrightarrow> sems s' n = Some c) \<and>
            (sems s wn = None \<longrightarrow> sems s' wn = Some 1) \<and>
            (sems s rn = None \<and> wn \<noteq> rn \<longrightarrow> sems s' rn = Some 0) \<and>
            (shms s name = None \<longrightarrow>
               shms s' name
               = Some \<lparr>shm_size = (if trunc_result f = TruncOk then MAX_BYTES else 0),
                       shm_seg = zero_segment\<rparr>) \<and>
            (\<forall>obj. shms s name = Some obj \<longrightarrow>
               shms s' name
               = Some (obj\<lparr>shm_size := (if trunc_result f = TruncOk then MAX_BYTES
                                          else shm_size obj)\<rparr>))) \<and>
         (fst (open_shared_memory (close_shared_memory s name wn rn) f self name wn rn) = 0
            \<longleftrightarrow> \<not> (wsem_fails f \<or> rsem_fails f \<or> shm_fails f \<or> trunc_result f = TruncError
                    \<or> mmap_fails f)) \<and>
         (fst (open_shared_memory (close_shared_memory s name wn rn) f self name wn rn) = 0 \<longrightarrow>
            sems (snd (snd (open_shared_memory (close_shared_memory s name wn rn) f self
                              name wn rn))) wn = Some 1 \<and>
            (wn \<noteq> rn \<longrightarrow>
               sems (snd (snd (open_shared_memory (close_shared_memory s name wn rn) f self
                                 name wn rn))) rn = Some 0) \<and>
            shms (snd (snd (open_shared_memory (close_shared_memory s name wn rn) f self
                              name wn rn))) name
            = Some \<lparr>shm_size = (if trunc_result f = TruncOk then MAX_BYTES else 0),
                    shm_seg = zero_segment\<rparr>)"
proof -
  have a: "rc = (if invocation_fails f then 1 else 0)"
    using assms by (rule open_rc)
  have one: "(rc = 0 \<longleftrightarrow> \<not> (wsem_fails f \<or> rsem_fails f \<or> shm_fails f \<or> trunc_result f = TruncError
                    \<or> mmap_fails f))"
    using a by (simp add: invocation_fails_def)
  have two: "rc = 0 \<longrightarrow>
            (\<forall>n c. sems s n = Some c \<longrightarrow> sems s' n = Some c) \<and>
            (sems s wn = None \<longrightarrow> sems s' wn = Some 1) \<and>
            (sems s rn = None \<and> wn \<noteq> rn \<longrightarrow> sems s' rn = Some 0) \<and>
            (shms s name = None \<longrightarrow>
               shms s' name
               = Some \<lparr>shm_size = (if trunc_result f = TruncOk then MAX_BYTES else 0),
                       shm_seg = zero_segment\<rparr>) \<and>
            (\<forall>obj. shms s name = Some obj \<longrightarrow>
               shms s' name
               = Some (obj\<lparr>shm_size := (if trunc_result f = TruncOk then MAX_BYTES
                                          else shm_size obj)\<rparr>))"
  proof
    assume "rc = 0"
    with assms have o: "open_shared_memory s f self name wn rn = (0, self', s')"
      by simp
    from open_keeps_counts [OF o] open_creates_semaphores [OF o] open_region [OF o]
    show "(\<forall>n c. sems s n = Some c \<longrightarrow> sems s' n = Some c) \<and>
            (sems s wn = None \<longrightarrow> sems s' wn = Some 1) \<and>
            (sems s rn = None \<and> wn \<noteq> rn \<longrightarrow> sems s' rn = Some 0) \<and>
            (shms s name = None \<longrightarrow>
               shms s' name
               = Some \<lparr>shm_size = (if trunc_result f = TruncOk then MAX_BYTES else 0),
                       shm_seg = zero_segment\<rparr>) \<and>
            (\<forall>obj. shms s name = Some obj \<longrightarrow>
               shms s' name
               = Some (obj\<lparr>shm_size := (if trunc_result f = TruncOk then MAX_BYTES
                                          else shm_size obj)\<rparr>))"
      by blast
  qed
  let ?o = "open_shared_memory (close_shared_memory s name wn rn) f self name wn rn"
  have three: "fst ?o = 0 \<longleftrightarrow> \<not> (wsem_fails f \<or> rsem_fails f \<or> shm_fails f
                    \<or> trunc_result f = TruncError \<or> mmap_fails f)"
    unfolding open_after_close_rc by (simp add: invocation_fails_def)
  have four: "fst ?o = 0 \<longrightarrow>
            sems (snd (snd ?o)) wn = Some 1 \<and>
            (wn \<noteq> rn \<longrightarrow> sems (snd (snd ?o)) rn = Some 0) \<and>
            shms (snd (snd ?o)) name
            = Some \<lparr>shm_size = (if trunc_result f = TruncOk then MAX_BYTES else 0),
                    shm_seg = zero_segment\<rparr>"
  proof
    assume "fst ?o = 0"
    then have nf: "\<not> invocation_fails f"
      unfolding open_after_close_rc by (simp split: if_splits)
    from open_after_close_state [OF nf, where s = s and name = name and wn = wn and rn = rn
        and self = self]
    show "sems (snd (snd ?o)) wn = Some 1 \<and>
            (wn \<noteq> rn \<longrightarrow> sems (snd (snd ?o)) rn = Some 0) \<and>
            shms (snd (snd ?o)) name
            = Some \<lparr>shm_size = (if trunc_result f = TruncOk then MAX_BYTES else 0),
                    shm_seg = zero_segment\<rparr>"
      by blast
  qed
  from one two three four show ?thesis
    by (intro conjI)
qed

lemma os_after_close_eq: "os_after_close = empty_os"
  by (simp add: os_after_close_def os_after_create_eq close_shared_memory_def os_defs empty_os_def)

lemma open_after_close:
  "open_shared_memory os_after_close no_faults no_handles ''/seg'' ''/wsem'' ''/rsem''
     = (0, \<lparr>h_fd = Some ''/seg'', h_data = Some ''/seg'', h_r_sem = Some ''/rsem'',
             h_w_sem = Some ''/wsem''\<rparr>, os_after_create)"
  by (simp add: os_after_close_eq os_after_create_eq open_shared_memory_def os_defs Let_def
      no_faults_def empty_os_def no_handles_def)

text \<open>
  The claim as stated fails: after \<^verbatim>\<open>close_shared_memory\<close> has unlinked the three
  names, \<^verbatim>\<open>open_shared_memory\<close> on them returns 0.
\<close>

theorem open_after_close_counterexample:
  "sems os_after_close ''/wsem'' = None \<and> sems os_after_close ''/rsem'' = None \<and>
   shms os_after_close ''/seg'' = None \<and>
   fst (open_shared_memory os_after_close no_faults no_handles ''/seg'' ''/wsem'' ''/rsem'') = 0"
  by (simp add: open_after_close) (simp add: os_after_close_eq empty_os_def)

lemma open_reader_only:
  "open_shared_memory reader_only_os no_faults no_handles ''/seg'' ''/wsem'' ''/rsem''
     = (0, \<lparr>h_fd = Some ''/seg'', h_data = Some ''/seg'', h_r_sem = Some ''/rsem'',
             h_w_sem = Some ''/wsem''\<rparr>,
        \<lparr>sems = [''/rsem'' \<mapsto> 1, ''/wsem'' \<mapsto> 1],
          shms = [''/seg'' \<mapsto> \<lparr>shm_size = MAX_BYTES, shm_seg = zero_segment\<rparr>]\<rparr>)"
  by (simp add: reader_only_os_def open_shared_memory_def os_defs Let_def no_faults_def
      no_handles_def)

theorem open_creates_what_is_missing_witness:
  "open_shared_memory reader_only_os no_faults no_handles ''/seg'' ''/wsem'' ''/rsem''
     = (0, \<lparr>h_fd = Some ''/seg'', h_data = Some ''/seg'', h_r_sem = Some ''/rsem'',
             h_w_sem = Some ''/wsem''\<rparr>,
        \<lparr>sems = [''/rsem'' \<mapsto> 1, ''/wsem'' \<mapsto> 1],
          shms = [''/seg'' \<mapsto> \<lparr>shm_size = MAX_BYTES, shm_seg = zero_segment\<rparr>]\<rparr>) \<and>
   sems reader_only_os ''/rsem'' = Some 1 \<and> sems reader_only_os ''/wsem'' = None \<and>
   shms reader_only_os ''/seg'' = None \<and> trunc_result no_faults = TruncOk \<and>
   fst (open_shared_memory (close_shared_memory reader_only_os ''/seg'' ''/wsem'' ''/rsem'')
          no_faults no_handles ''/seg'' ''/wsem'' ''/rsem'') = 0 \<and>
   sems (snd (snd (open_shared_memory
                     (close_shared_memory reader_only_os ''/seg'' ''/wsem'' ''/rsem'')
                     no_faults no_handles ''/seg'' ''/wsem'' ''/rsem''))) ''/wsem'' = Some 1 \<and>
   sems (snd (snd (open_shared_memory
                     (close_shared_memory reader_only_os ''/seg'' ''/wsem'' ''/rsem'')
                     no_faults no_handles ''/seg'' ''/wsem'' ''/rsem''))) ''/rsem'' = Some 0 \<and>
   shms (snd (snd (open_shared_memory
                     (close_shared_memory reader_only_os ''/seg'' ''/wsem'' ''/rsem'')
                     no_faults no_handles ''/seg'' ''/wsem'' ''/rsem''))) ''/seg''
     = Some \<lparr>shm_size = MAX_BYTES, shm_seg = zero_segment\<rparr>"
proof -
  note t = open_creates_what_is_missing [OF open_reader_only]
  have nf: "\<not> (wsem_fails no_faults \<or> rsem_fails no_faults \<or> shm_fails no_faults \<or>
              trunc_result no_faults = TruncError \<or> mmap_fails no_faults)"
    and ok: "trunc_result no_faults = TruncOk"
    by (simp_all add: no_faults_def)
  have ne: "''/wsem'' \<noteq> ''/rsem''"
    by simp
  from t have a: "fst (open_shared_memory
                        (close_shared_memory reader_only_os ''/seg'' ''/wsem'' ''/rsem'')
                        no_faults no_handles ''/seg'' ''/wsem'' ''/rsem'') = 0"
    using nf by blast
  from t a have b:
    "sems (snd (snd (open_shared_memory
                     (close_shared_memory reader_only_os ''/seg'' ''/wsem'' ''/rsem'')
                     no_faults no_handles ''/seg'' ''/wsem'' ''/rsem''))) ''/wsem'' = Some 1"
    "sems (snd (snd (open_shared_memory
                     (close_shared_memory reader_only_os ''/seg'' ''/wsem'' ''/rsem'')
                     no_faults no_handles ''/seg'' ''/wsem'' ''/rsem''))) ''/rsem'' = Some 0"
    "shms (snd (snd (open_shared_memory
                     (close_shared_memory reader_only_os ''/seg'' ''/wsem'' ''/rsem'')
                     no_faults no_handles ''/seg'' ''/wsem'' ''/rsem''))) ''/seg''
     = Some \<lparr>shm_size = MAX_BYTES, shm_seg = zero_segment\<rparr>"
    using ne ok by (blast, blast, simp)
  have c: "sems reader_only_os ''/rsem'' = Some 1" "sems reader_only_os ''/wsem'' = None"
    "shms reader_only_os ''/seg'' = None"
    by (simp_all add: reader_only_os_def)
  from open_reader_only a b c ok show ?thesis
    by (intro conjI)
qed

section \<open>Chunk arithmetic of send_item\<close>

lemma MAX_BYTES_lt_size_mod: "platform_ok p \<Longrightarrow> MAX_BYTES < size_mod p"
  by (simp add: platform_ok_def)

lemma maxlen_lt_MAX_BYTES:
  assumes "platform_ok p"
  shows "maxlen p < MAX_BYTES"
proof -
  from assms have "0 < sizeof_ptr p" "sizeof_ptr p < MAX_BYTES"
    by (simp_all add: platform_ok_def)
  then show ?thesis
    by (simp add: maxlen_eq [OF assms])
qed

lemma sz_mul_id: "a * b < size_mod p \<Longrightarrow> sz_mul p a b = a * b"
  by (simp add: sz_mul_def)

lemma sz_add_id: "a + b < size_mod p \<Longrightarrow> sz_add p a b = a + b"
  by (simp add: sz_add_def)

lemma sz_sub_id: "b \<le> a \<Longrightarrow> a < size_mod p \<Longrightarrow> sz_sub p a b = a - b"
  unfolding sz_sub_def by (subst sz_id) (simp_all add: nat_diff_distrib')

lemma ceil_div:
  fixes L M :: nat
  assumes "0 < M"
  shows "(L + M - 1) div M = (if L mod M = 0 then L div M else L div M + 1)"
proof -
  define q r where "q = L div M" and "r = L mod M"
  have L: "L = M * q + r"
    by (simp add: q_def r_def)
  have r: "r < M"
    using assms by (simp add: r_def)
  show ?thesis
  proof (cases "r = 0")
    case True
    have "(L + M - 1) div M = q"
    proof (rule div_nat_eqI)
      show "M * q \<le> L + M - 1" using L assms by simp
      show "L + M - 1 < M * Suc q" using L True assms by simp
    qed
    with True show ?thesis by (simp add: q_def r_def)
  next
    case False
    have "(L + M - 1) div M = q + 1"
    proof (rule div_nat_eqI)
      show "M * (q + 1) \<le> L + M - 1" using L False by simp
      show "L + M - 1 < M * Suc (q + 1)" using L r by simp
    qed
    with False show ?thesis by (simp add: q_def r_def)
  qed
qed

lemma chunk_count_eq:
  assumes ok: "platform_ok p" and L: "len < size_mod p"
  shows "chunk_count p len = (if len = 0 then 1 else (len + maxlen p - 1) div maxlen p)"
proof -
  let ?M = "maxlen p"
  have M: "0 < ?M" using ok by (rule maxlen_pos)
  have MS: "?M < size_mod p"
    using maxlen_lt_MAX_BYTES [OF ok] MAX_BYTES_lt_size_mod [OF ok] by simp
  show ?thesis
  proof (cases "?M < len")
    case True
    have dm: "len div ?M * ?M + len mod ?M = len" by simp
    have le: "len div ?M * ?M \<le> len" by simp
    then have "len div ?M * ?M < size_mod p"
      using L by (rule le_less_trans)
    then have m: "sz_mul p (len div ?M) ?M = len div ?M * ?M"
      by (rule sz_mul_id)
    have c: "(len div ?M * ?M < len) = (len mod ?M \<noteq> 0)"
      using dm by arith
    have lt: "len div ?M + 1 < size_mod p" if "len mod ?M \<noteq> 0"
    proof -
      have "len div ?M \<le> len div ?M * ?M" using M by simp
      also have "\<dots> < len" using c that by simp
      finally show ?thesis using L by simp
    qed
    from True have nz: "len \<noteq> 0" by simp
    have cd: "(len + ?M - 1) div ?M = (if len mod ?M = 0 then len div ?M else len div ?M + 1)"
      using M by (rule ceil_div)
    show ?thesis
    proof (cases "len mod ?M = 0")
      case z: True
      with True m c nz show ?thesis
        unfolding chunk_count_def Let_def cd by simp
    next
      case nzm: False
      then have "sz_add p (len div ?M) 1 = len div ?M + 1"
        using lt by (intro sz_add_id) simp
      with nzm True m c nz show ?thesis
        unfolding chunk_count_def Let_def cd by simp
    qed
  next
    case False
    then have le: "len \<le> ?M" by simp
    have m: "sz_mul p 1 ?M = ?M"
      using MS by (simp add: sz_mul_id)
    show ?thesis
    proof (cases "len = 0")
      case True
      with False m show ?thesis
        unfolding chunk_count_def Let_def by simp
    next
      case nz: False
      have cd: "(len + ?M - 1) div ?M = (if len mod ?M = 0 then len div ?M else len div ?M + 1)"
        using M by (rule ceil_div)
      have "(len + ?M - 1) div ?M = 1"
        unfolding cd using le nz M by (cases "len = ?M") auto
      with False nz m le show ?thesis
        unfolding chunk_count_def Let_def by simp
    qed
  qed
qed


lemma chunk_bounds:
  fixes L M :: nat
  assumes "0 < M" and "0 < L"
  shows "1 \<le> (L + M - 1) div M \<and> ((L + M - 1) div M - 1) * M < L \<and> L \<le> (L + M - 1) div M * M"
proof -
  have cd: "(L + M - 1) div M = (if L mod M = 0 then L div M else L div M + 1)"
    using assms(1) by (rule ceil_div)
  have dm: "L div M * M + L mod M = L" by simp
  have r: "L mod M < M" using assms(1) by simp
  show ?thesis
  proof (cases "L mod M = 0")
    case True
    with dm have e: "L div M * M = L" by simp
    with assms have q: "1 \<le> L div M"
      by (metis One_nat_def Suc_leI mult_is_0 neq0_conv)
    then have "(L div M - 1) * M = L - M"
      using e by (simp add: diff_mult_distrib)
    with q e assms True show ?thesis
      unfolding cd by simp
  next
    case False
    then have "L div M * M < L" using dm by arith
    moreover have "(L div M + 1) * M = L div M * M + M" by simp
    moreover have "L \<le> L div M * M + M" using dm r by arith
    ultimately show ?thesis
      unfolding cd using False by simp
  qed
qed

lemma chunk_count_bounds:
  assumes ok: "platform_ok p" and pos: "0 < len" and L: "len < size_mod p"
  shows "1 \<le> chunk_count p len" and "(chunk_count p len - 1) * maxlen p < len"
    and "len \<le> chunk_count p len * maxlen p"
  using chunk_bounds [OF maxlen_pos [OF ok] pos] pos
  by (simp_all add: chunk_count_eq [OF ok L])

lemma frag_len_bounds:
  assumes ok: "platform_ok p" and pos: "0 < len" and L: "len < size_mod p"
    and i: "i < chunk_count p len"
  shows "0 < frag_len p len i" and "frag_len p len i \<le> maxlen p"
    and "i * maxlen p + frag_len p len i \<le> len"
proof -
  let ?n = "chunk_count p len" and ?M = "maxlen p"
  note b = chunk_count_bounds [OF ok pos L]
  have M: "0 < ?M" using ok by (rule maxlen_pos)
  have n: "?n * ?M = (?n - 1) * ?M + ?M"
    using b(1) by (simp add: diff_mult_distrib)
  have comm: "?M * (?n - 1) = (?n - 1) * ?M" by simp
  show "0 < frag_len p len i"
    using b(2) M unfolding frag_len_def comm by simp
  show "frag_len p len i \<le> ?M"
    using b(3) n unfolding frag_len_def comm by auto
  show "i * ?M + frag_len p len i \<le> len"
  proof (cases "i = ?n - 1")
    case True
    then show ?thesis
      using b(2) unfolding frag_len_def comm by simp
  next
    case False
    with i have "i + 1 \<le> ?n - 1" by simp
    then have "(i + 1) * ?M \<le> (?n - 1) * ?M"
      by (rule mult_le_mono1)
    with b(2) False show ?thesis
      unfolding frag_len_def by simp
  qed
qed

lemma send_args_eq:
  assumes ok: "platform_ok p" and pos: "0 < len" and L: "len < size_mod p"
    and i: "i < chunk_count p len"
  shows "send_args p data len (chunk_count p len) i
         = (drop (i * maxlen p) data, frag_len p len i, i mod uint_mod p, chunk_count p len)"
proof -
  let ?n = "chunk_count p len" and ?M = "maxlen p"
  note b = chunk_count_bounds [OF ok pos L]
  note f = frag_len_bounds [OF ok pos L i]
  have iM: "i * ?M < size_mod p"
    using f(3) L by simp
  have m1: "sz_mul p i ?M = i * ?M"
    using iM by (rule sz_mul_id)
  have m2: "sz_mul p ?M i = ?M * i"
    using iM by (intro sz_mul_id) (simp add: mult.commute)
  have nS: "?n < size_mod p"
  proof -
    have "?n - 1 \<le> (?n - 1) * ?M" using maxlen_pos [OF ok] by simp
    with b(2) L b(1) show ?thesis by linarith
  qed
  have s1: "sz_sub p ?n 1 = ?n - 1"
    using b(1) nS by (intro sz_sub_id) simp_all
  have s2: "sz_sub p len (?M * i) = len - ?M * i"
    using f(3) L by (intro sz_sub_id) (simp_all add: mult.commute)
  have one: "?n = 1 \<Longrightarrow> frag_len p len i = len"
    using i by (simp add: frag_len_def)
  show ?thesis
    unfolding send_args_def Let_def m1 m2 s1 s2
    using one by (auto simp: frag_len_def)
qed

lemma send_calls_length: "length (send_calls p data len) = chunk_count p len"
  by (simp add: send_calls_def)

lemma send_calls_nth:
  assumes "platform_ok p" and "0 < len" and "len < size_mod p" and "i < chunk_count p len"
  shows "send_calls p data len ! i
         = (drop (i * maxlen p) data, frag_len p len i, i mod uint_mod p, chunk_count p len)"
  using assms by (simp add: send_calls_def send_args_eq)

lemma send_loop_run_calls:
  "send_loop p w data len chunks i
   = run_calls p w (map (send_args p data len chunks) [i..<chunks])"
proof (induction p w data len chunks i rule: send_loop.induct)
  case (1 p w data len chunks i)
  show ?case
  proof (cases "i < chunks")
    case True
    then have u: "[i..<chunks] = i # [i + 1..<chunks]"
      by (simp add: upt_conv_Cons)
    obtain d ulen ident tot where a: "send_args p data len chunks i = (d, ulen, ident, tot)"
      by (cases "send_args p data len chunks i") auto
    show ?thesis
    proof (cases "write_shared_memory p w d ulen ident tot")
      case (Returns x)
      obtain r w' where x: "x = (r, w')" by (cases x)
      show ?thesis
      proof (cases "r = 0")
        case r0: True
        have "send_loop p w' data len chunks (i + 1)
              = run_calls p w' (map (send_args p data len chunks) [i + 1..<chunks])"
          using True a [symmetric] Returns x r0 by (intro "1.IH") auto
        with True a Returns x r0 u show ?thesis
          by (subst send_loop.simps) simp
      next
        case False
        with True a Returns x u show ?thesis
          by (subst send_loop.simps) simp
      qed
    next
      case Blocks
      with True a u show ?thesis by (subst send_loop.simps) simp
    next
      case Aborts
      with True a u show ?thesis by (subst send_loop.simps) simp
    next
      case (Undefined f)
      with True a u show ?thesis by (subst send_loop.simps) simp
    qed
  next
    case False
    then show ?thesis by (subst send_loop.simps) simp
  qed
qed

lemma send_item_run_calls: "send_item p w data len = run_calls p w (send_calls p data len)"
  by (simp add: send_item_def send_calls_def send_loop_run_calls)

lemma concat_full_chunks:
  "k * M \<le> length data \<Longrightarrow>
   concat (map (\<lambda>i. take M (drop (i * M) data)) [0..<k]) = take (k * M) data"
proof (induction k)
  case 0
  then show ?case by simp
next
  case (Suc k)
  then have "concat (map (\<lambda>i. take M (drop (i * M) data)) [0..<k]) = take (k * M) data"
    by simp
  moreover have "take (k * M + M) data = take (k * M) data @ take M (drop (k * M) data)"
    by (rule take_add)
  ultimately show ?case
    by (simp add: add.commute)
qed

lemma send_calls_concat:
  assumes ok: "platform_ok p" and pos: "0 < len" and L: "len < size_mod p"
    and len: "len \<le> length data"
  shows "concat (map (\<lambda>i. take (frag_len p len i) (drop (i * maxlen p) data))
           [0..<chunk_count p len]) = take len data"
proof -
  let ?n = "chunk_count p len" and ?M = "maxlen p"
  note b = chunk_count_bounds [OF ok pos L]
  have u: "[0..<?n] = [0..<?n - 1] @ [?n - 1]"
    using b(1) by (metis One_nat_def Suc_pred less_eq_Suc_le upt_Suc_append zero_le)
  have f: "map (\<lambda>i. take (frag_len p len i) (drop (i * ?M) data)) [0..<?n - 1]
           = map (\<lambda>i. take ?M (drop (i * ?M) data)) [0..<?n - 1]"
    by (rule map_cong) (simp_all add: frag_len_def)
  have k: "(?n - 1) * ?M \<le> length data"
    using b(2) len by simp
  have last: "frag_len p len (?n - 1) = len - (?n - 1) * ?M"
    by (simp add: frag_len_def mult.commute)
  have "take ((?n - 1) * ?M + (len - (?n - 1) * ?M)) data
        = take ((?n - 1) * ?M) data @ take (len - (?n - 1) * ?M) (drop ((?n - 1) * ?M) data)"
    by (rule take_add)
  moreover have "(?n - 1) * ?M + (len - (?n - 1) * ?M) = len"
    using b(2) by simp
  ultimately have t: "take ((?n - 1) * ?M) data @ take (len - (?n - 1) * ?M) (drop ((?n - 1) * ?M) data)
        = take len data"
    by simp
  have "concat (map (\<lambda>i. take (frag_len p len i) (drop (i * ?M) data)) [0..<?n])
        = concat (map (\<lambda>i. take (frag_len p len i) (drop (i * ?M) data)) [0..<?n - 1])
          @ take (frag_len p len (?n - 1)) (drop ((?n - 1) * ?M) data)"
    by (subst u) (simp del: One_nat_def)
  also have "\<dots> = take ((?n - 1) * ?M) data
                 @ take (len - (?n - 1) * ?M) (drop ((?n - 1) * ?M) data)"
    unfolding f last concat_full_chunks [OF k] ..
  also have "\<dots> = take len data"
    by (rule t)
  finally show ?thesis .
qed

section \<open>C7: fragmentation\<close>

text \<open>
  Claim C7, as the code has it. For a payload length \<open>0 < len\<close> that is a
  \<^verbatim>\<open>size_t\<close>, \<^verbatim>\<open>send_item\<close> makes exactly \<open>ceil (len / maxlen)\<close> calls of
  \<^verbatim>\<open>write_shared_memory\<close>, at least one, and nothing else. Call \<open>i\<close> gets the
  buffer at offset \<open>i * maxlen\<close>, the fragment count, and as message id the index
  converted to \<^verbatim>\<open>unsigned\<close>, that is \<open>i mod uint_mod\<close>, which is \<open>i\<close> for every index
  below \<open>uint_mod\<close>. Every fragment but the last has length \<open>maxlen\<close>; the last has
  the remainder \<open>len - maxlen * (count - 1)\<close>, which lies in \<open>1 .. maxlen\<close> and is
  \<open>maxlen\<close> when \<open>len\<close> is a multiple. The fragments, one after the other, are the
  message.
\<close>

theorem send_item_fragments:
  assumes ok: "platform_ok p" and pos: "0 < len" and L: "len < size_mod p"
  shows "chunk_count p len = (len + maxlen p - 1) div maxlen p \<and>
         1 \<le> chunk_count p len \<and>
         send_item p w data len = run_calls p w (send_calls p data len) \<and>
         length (send_calls p data len) = chunk_count p len \<and>
         (\<forall>i<chunk_count p len.
            send_calls p data len ! i
            = (drop (i * maxlen p) data, frag_len p len i, i mod uint_mod p, chunk_count p len)) \<and>
         (\<forall>i<chunk_count p len. i \<noteq> chunk_count p len - 1 \<longrightarrow> frag_len p len i = maxlen p) \<and>
         frag_len p len (chunk_count p len - 1) = len - maxlen p * (chunk_count p len - 1) \<and>
         0 < frag_len p len (chunk_count p len - 1) \<and>
         frag_len p len (chunk_count p len - 1) \<le> maxlen p \<and>
         (maxlen p dvd len \<longrightarrow> frag_len p len (chunk_count p len - 1) = maxlen p) \<and>
         (\<forall>i<chunk_count p len. i < uint_mod p \<longrightarrow> i mod uint_mod p = i) \<and>
         (len \<le> length data \<longrightarrow>
            concat (map (\<lambda>i. take (frag_len p len i) (drop (i * maxlen p) data))
              [0..<chunk_count p len]) = take len data)"
proof -
  let ?n = "chunk_count p len" and ?M = "maxlen p"
  note b = chunk_count_bounds [OF ok pos L]
  have lastlt: "?n - 1 < ?n" using b(1) by simp
  have c1: "?n = (len + ?M - 1) div ?M"
    using pos by (simp add: chunk_count_eq [OF ok L])
  have c3: "send_item p w data len = run_calls p w (send_calls p data len)"
    by (rule send_item_run_calls)
  have c5: "\<forall>i<?n. send_calls p data len ! i
            = (drop (i * ?M) data, frag_len p len i, i mod uint_mod p, ?n)"
    using send_calls_nth [OF ok pos L] by blast
  have c6: "\<forall>i<?n. i \<noteq> ?n - 1 \<longrightarrow> frag_len p len i = ?M"
    by (simp add: frag_len_def)
  have c7: "frag_len p len (?n - 1) = len - ?M * (?n - 1)"
    by (simp add: frag_len_def)
  have c8: "0 < frag_len p len (?n - 1)" "frag_len p len (?n - 1) \<le> ?M"
    using frag_len_bounds [OF ok pos L lastlt] by simp_all
  have c9: "?M dvd len \<longrightarrow> frag_len p len (?n - 1) = ?M"
  proof
    assume "?M dvd len"
    then obtain q where q: "len = ?M * q" ..
    have M: "0 < ?M" using ok by (rule maxlen_pos)
    from b(2) b(3) q M have "?n - 1 < q" "q \<le> ?n"
      by (simp_all add: mult.commute)
    then have "q = ?n" by simp
    with q have e: "len = ?M * ?n" by simp
    have "?M * (?n - 1) = ?M * ?n - ?M"
      by (simp add: diff_mult_distrib2)
    moreover have "?M \<le> ?M * ?n"
      using b(1) by simp
    ultimately show "frag_len p len (?n - 1) = ?M"
      unfolding c7 using e by simp
  qed
  have c10: "\<forall>i<?n. i < uint_mod p \<longrightarrow> i mod uint_mod p = i"
    by simp
  have c11: "len \<le> length data \<longrightarrow>
            concat (map (\<lambda>i. take (frag_len p len i) (drop (i * ?M) data)) [0..<?n]) = take len data"
    using send_calls_concat [OF ok pos L] by blast
  show ?thesis
    using c1 b(1) c3 send_calls_length c5 c6 c7 c8 c9 c10 c11 by blast
qed

lemma size_mod_lp64: "size_mod lp64 = 18446744073709551616"
  by (simp add: size_mod_def lp64_def)

lemma uint_mod_lp64: "uint_mod lp64 = 4294967296"
  by (simp add: uint_mod_def lp64_def)

lemma chunk_count_lp64_large: "chunk_count lp64 17179748924915713 = 4294967297"
  by (simp add: chunk_count_eq [OF platform_ok_lp64] size_mod_lp64 maxlen_lp64)

text \<open>
  The claim as stated, message id equal to the fragment index, fails on the 64-bit
  platform for a payload of \<open>2 ^ 32 * maxlen + 1\<close> bytes: fragment 4294967296 is sent
  with id 0.
\<close>

theorem message_id_wraps_counterexample:
  "(0::nat) < 17179748924915713 \<and> 17179748924915713 < size_mod lp64 \<and>
   4294967296 < chunk_count lp64 17179748924915713 \<and>
   fst (snd (snd (send_calls lp64 (replicate 17179748924915713 0) 17179748924915713 ! 4294967296)))
     = 0"
proof -
  have lt: "(4294967296::nat) < chunk_count lp64 17179748924915713"
    by (simp add: chunk_count_lp64_large)
  have S: "(17179748924915713::nat) < size_mod lp64"
    by (simp add: size_mod_lp64)
  have "send_calls lp64 (replicate 17179748924915713 0) 17179748924915713 ! 4294967296
        = (drop (4294967296 * maxlen lp64) (replicate 17179748924915713 0),
           frag_len lp64 17179748924915713 4294967296, 4294967296 mod uint_mod lp64,
           chunk_count lp64 17179748924915713)"
    using platform_ok_lp64 _ S lt by (rule send_calls_nth) simp
  with lt S show ?thesis
    by (simp add: uint_mod_lp64)
qed

lemma chunk_count_lp64_4: "chunk_count lp64 11999933 = 4"
  by (simp add: chunk_count_eq [OF platform_ok_lp64] size_mod_lp64 maxlen_lp64)

theorem send_item_fragments_witness:
  "platform_ok lp64 \<and> (0::nat) < 11999933 \<and> 11999933 < size_mod lp64 \<and>
   chunk_count lp64 11999933 = 4 \<and>
   send_calls lp64 (replicate 11999933 7) 11999933 ! 2
     = (drop (2 * maxlen lp64) (replicate 11999933 7), 3999972, 2, 4) \<and>
   send_calls lp64 (replicate 11999933 7) 11999933 ! 3
     = (drop (3 * maxlen lp64) (replicate 11999933 7), 17, 3, 4) \<and>
   (2::nat) < 4 \<and> (2::nat) \<noteq> 4 - 1 \<and> (3::nat) < 4 \<and> (3::nat) < uint_mod lp64"
proof -
  have S: "(11999933::nat) < size_mod lp64"
    by (simp add: size_mod_lp64)
  note t = send_item_fragments [OF platform_ok_lp64 _ S, of "fresh_world Idle" "replicate 11999933 7"]
  have n: "chunk_count lp64 11999933 = 4"
    by (rule chunk_count_lp64_4)
  from t have a: "\<forall>i<chunk_count lp64 11999933.
      send_calls lp64 (replicate 11999933 7) 11999933 ! i
      = (drop (i * maxlen lp64) (replicate 11999933 7), frag_len lp64 11999933 i,
         i mod uint_mod lp64, chunk_count lp64 11999933)"
    by simp
  have f2: "frag_len lp64 11999933 2 = 3999972"
    by (simp add: frag_len_def n maxlen_lp64)
  have f3: "frag_len lp64 11999933 3 = 17"
    by (simp add: frag_len_def n maxlen_lp64)
  from a have "send_calls lp64 (replicate 11999933 7) 11999933 ! 2
      = (drop (2 * maxlen lp64) (replicate 11999933 7), frag_len lp64 11999933 2,
         2 mod uint_mod lp64, chunk_count lp64 11999933)"
    unfolding n by (elim allE [of _ 2]) simp
  then have c2: "send_calls lp64 (replicate 11999933 7) 11999933 ! 2
     = (drop (2 * maxlen lp64) (replicate 11999933 7), 3999972, 2, 4)"
    by (simp add: f2 n uint_mod_lp64)
  from a have "send_calls lp64 (replicate 11999933 7) 11999933 ! 3
      = (drop (3 * maxlen lp64) (replicate 11999933 7), frag_len lp64 11999933 3,
         3 mod uint_mod lp64, chunk_count lp64 11999933)"
    unfolding n by (elim allE [of _ 3]) simp
  then have c3: "send_calls lp64 (replicate 11999933 7) 11999933 ! 3
     = (drop (3 * maxlen lp64) (replicate 11999933 7), 17, 3, 4)"
    by (simp add: f3 n uint_mod_lp64)
  show ?thesis
    using platform_ok_lp64 S n c2 c3 by (simp add: uint_mod_lp64)
qed

section \<open>C10: the send side has no failing return\<close>

lemma write_rc_zero:
  "write_shared_memory p w data len ident tot = Returns (rc, w') \<Longrightarrow> rc = 0"
  by (auto simp: write_shared_memory_def split: if_splits option.splits)

lemma run_calls_rc_zero: "run_calls p w cs = Returns (rc, w') \<Longrightarrow> rc = 0"
proof (induction cs arbitrary: w)
  case Nil
  then show ?case by simp
next
  case (Cons c cs)
  obtain d ulen ident tot where c: "c = (d, ulen, ident, tot)"
    by (cases c) auto
  show ?case
  proof (cases "write_shared_memory p w d ulen ident tot")
    case (Returns x)
    obtain r w1 where x: "x = (r, w1)" by (cases x)
    from Returns x have "r = 0" by (auto dest: write_rc_zero)
    with Cons.prems c Returns x have "run_calls p w1 cs = Returns (rc, w')" by simp
    then show ?thesis by (rule Cons.IH)
  next
    case Blocks
    with Cons.prems c show ?thesis by simp
  next
    case Aborts
    with Cons.prems c show ?thesis by simp
  next
    case (Undefined f)
    with Cons.prems c show ?thesis by simp
  qed
qed

lemma send_item_rc_zero: "send_item p w data len = Returns (rc, w') \<Longrightarrow> rc = 0"
  unfolding send_item_run_calls by (rule run_calls_rc_zero)

lemma write_returns_when_writable:
  assumes "write_asserts p len" and "len \<le> length data" and "0 < w_sem w"
  shows "write_shared_memory p w data len ident tot
         = Returns (0, sem_post_r (w\<lparr>w_sem := w_sem w - 1,
                                     seg := store_fragment (seg w) data len ident tot\<rparr>))"
  using assms by (simp add: write_shared_memory_def sem_wait_w_def)

lemma write_reader_ahead:
  assumes ok: "platform_ok p" and v: "valid_call p (d, ulen, ident, tot)"
    and ra: "reader_ahead p w (Suc k)"
  shows "\<exists>w'. write_shared_memory p w d ulen ident tot = Returns (0, w') \<and> reader_ahead p w' k"
proof -
  from v have a: "write_asserts p ulen" and l: "ulen \<le> length d"
    by (simp_all add: valid_call_def)
  from a have len: "0 < ulen" "ulen \<le> MAX_BYTES - header_size p"
    by (simp_all add: write_asserts_def write_limit_eq [OF ok])
  from ra obtain n where n: "peer w = Reads n"
    by (auto simp: reader_ahead_def split: peer.splits)
  from ra n consider
      (writable) "w_sem w = 1" "r_sem w = 0" "k \<le> n"
    | (published) "w_sem w = 0" "r_sem w = 1" "Suc k \<le> n" "0 < seg_len (seg w)"
        "seg_len (seg w) \<le> MAX_BYTES - header_size p"
    by (auto simp: reader_ahead_def)
  then show ?thesis
  proof cases
    case writable
    then show ?thesis
      using a l n len
      by (simp add: write_shared_memory_def sem_wait_w_def sem_post_r_def reader_ahead_def
          store_fragment_def)
  next
    case published
    then obtain m where m: "n = Suc m" by (cases n) auto
    with published n have "peer_step p w
        = w\<lparr>seg := zero_segment, r_sem := 0, w_sem := 1, peer := Reads m\<rparr>"
      by (simp add: peer_step_def)
    with published m show ?thesis
      using a l len
      by (simp add: write_shared_memory_def sem_wait_w_def sem_post_r_def reader_ahead_def
          store_fragment_def)
  qed
qed

lemma run_calls_reader_ahead:
  assumes ok: "platform_ok p"
  shows "\<forall>c\<in>set cs. valid_call p c \<Longrightarrow> reader_ahead p w (length cs) \<Longrightarrow>
         \<exists>w'. run_calls p w cs = Returns (0, w')"
proof (induction cs arbitrary: w)
  case Nil
  then show ?case by simp
next
  case (Cons c cs)
  obtain d ulen ident tot where c: "c = (d, ulen, ident, tot)"
    by (cases c) auto
  from Cons.prems c have v: "valid_call p (d, ulen, ident, tot)" by simp
  from Cons.prems have ra: "reader_ahead p w (Suc (length cs))" by simp
  from write_reader_ahead [OF ok v ra] obtain w1 where
    w1: "write_shared_memory p w d ulen ident tot = Returns (0, w1)" "reader_ahead p w1 (length cs)"
    by blast
  from Cons.prems have "\<forall>c\<in>set cs. valid_call p c" by simp
  from Cons.IH [OF this w1(2)] obtain w' where "run_calls p w1 cs = Returns (0, w')" ..
  with c w1(1) show ?case by simp
qed

lemma send_calls_valid:
  assumes ok: "platform_ok p" and pos: "0 < len" and L: "len < size_mod p"
    and len: "len \<le> length data"
  shows "\<forall>c\<in>set (send_calls p data len). valid_call p c"
proof
  fix c assume "c \<in> set (send_calls p data len)"
  then obtain i where i: "i < chunk_count p len" and c: "c = send_calls p data len ! i"
    by (auto simp: in_set_conv_nth send_calls_length)
  note f = frag_len_bounds [OF ok pos L i]
  have "frag_len p len i \<le> write_limit p"
    using f(2) maxlen_le_write_limit [OF ok] by simp
  moreover have "frag_len p len i \<le> length (drop (i * maxlen p) data)"
    using f(3) len by simp
  ultimately show "valid_call p c"
    using f(1) unfolding c send_calls_nth [OF ok pos L i]
    by (simp add: valid_call_def write_asserts_def)
qed

lemma send_item_returns:
  assumes ok: "platform_ok p" and pos: "0 < len" and L: "len < size_mod p"
    and len: "len \<le> length data" and ra: "reader_ahead p w (chunk_count p len)"
  shows "\<exists>w'. send_item p w data len = Returns (0, w')"
  unfolding send_item_run_calls
  using send_calls_valid [OF ok pos L len] ra
  by (intro run_calls_reader_ahead [OF ok]) (simp_all add: send_calls_length)

text \<open>
  Claim C10. Whatever \<^verbatim>\<open>write_shared_memory\<close> is given, when it returns it returns
  0, and so does \<^verbatim>\<open>send_item\<close>: neither has a path that returns an error. And they
  do return: \<^verbatim>\<open>write_shared_memory\<close> returns 0 on every input that passes its
  assertion, with a buffer of that length, once W is available; \<^verbatim>\<open>send_item\<close>
  returns 0 for every payload of positive length whose fragments a reading peer
  consumes.
\<close>

theorem send_side_never_fails:
  assumes ok: "platform_ok p"
  shows "(\<forall>w data len ident tot rc w'.
            write_shared_memory p w data len ident tot = Returns (rc, w') \<longrightarrow> rc = 0) \<and>
         (\<forall>w data len rc w'. send_item p w data len = Returns (rc, w') \<longrightarrow> rc = 0) \<and>
         (\<forall>w data len ident tot.
            write_asserts p len \<and> len \<le> length data \<and> 0 < w_sem w \<longrightarrow>
            (\<exists>w'. write_shared_memory p w data len ident tot = Returns (0, w'))) \<and>
         (\<forall>w data len.
            0 < len \<and> len < size_mod p \<and> len \<le> length data \<and>
            reader_ahead p w (chunk_count p len) \<longrightarrow>
            (\<exists>w'. send_item p w data len = Returns (0, w')))"
proof -
  have a: "\<forall>w data len ident tot rc w'.
            write_shared_memory p w data len ident tot = Returns (rc, w') \<longrightarrow> rc = 0"
    using write_rc_zero by blast
  have b: "\<forall>w data len rc w'. send_item p w data len = Returns (rc, w') \<longrightarrow> rc = 0"
    using send_item_rc_zero by blast
  have c: "\<forall>w data len ident tot.
            write_asserts p len \<and> len \<le> length data \<and> 0 < w_sem w \<longrightarrow>
            (\<exists>w'. write_shared_memory p w data len ident tot = Returns (0, w'))"
    using write_returns_when_writable by blast
  have d: "\<forall>w data len.
            0 < len \<and> len < size_mod p \<and> len \<le> length data \<and>
            reader_ahead p w (chunk_count p len) \<longrightarrow>
            (\<exists>w'. send_item p w data len = Returns (0, w'))"
    using send_item_returns [OF ok] by blast
  from a b c d show ?thesis by blast
qed

theorem send_side_never_fails_witness:
  "platform_ok lp64 \<and> (0::nat) < 11999933 \<and> 11999933 < size_mod lp64 \<and>
   11999933 \<le> length (replicate 11999933 (7::byte)) \<and>
   reader_ahead lp64 (fresh_world (Reads 3)) (chunk_count lp64 11999933) \<and>
   (\<exists>w'. send_item lp64 (fresh_world (Reads 3)) (replicate 11999933 7) 11999933 = Returns (0, w')) \<and>
   write_asserts lp64 3 \<and> 3 \<le> length [1, 2, 3 :: byte] \<and> 0 < w_sem (fresh_world Idle) \<and>
   (\<exists>w'. write_shared_memory lp64 (fresh_world Idle) [1, 2, 3] 3 0 1 = Returns (0, w'))"
proof -
  note t = send_side_never_fails [OF platform_ok_lp64]
  have h1: "(0::nat) < 11999933 \<and> 11999933 < size_mod lp64 \<and>
            11999933 \<le> length (replicate 11999933 (7::byte)) \<and>
            reader_ahead lp64 (fresh_world (Reads 3)) (chunk_count lp64 11999933)"
    by (simp add: size_mod_lp64 chunk_count_lp64_4 reader_ahead_def fresh_world_def)
  have h2: "write_asserts lp64 3 \<and> 3 \<le> length [1, 2, 3 :: byte] \<and> 0 < w_sem (fresh_world Idle)"
    by (simp add: write_asserts_def write_limit_lp64 fresh_world_def)
  from t h1 have c1: "\<exists>w'. send_item lp64 (fresh_world (Reads 3)) (replicate 11999933 7) 11999933
                        = Returns (0, w')"
    by blast
  from t h2 have c2: "\<exists>w'. write_shared_memory lp64 (fresh_world Idle) [1, 2, 3] 3 0 1 = Returns (0, w')"
    by blast
  from h1 h2 c1 c2 platform_ok_lp64 show ?thesis by blast
qed

section \<open>C9: an error return of read_shared_memory\<close>

lemma peer_step_stuck: "r_sem w = 0 \<Longrightarrow> w_sem w = 0 \<Longrightarrow> peer_step p w = w"
  unfolding peer_step_def by (cases "(p, peer w, w)" rule: peer_act.cases) simp_all

lemma sem_wait_r_stuck: "r_sem w = 0 \<Longrightarrow> w_sem w = 0 \<Longrightarrow> sem_wait_r p w = None"
  by (simp add: sem_wait_r_def peer_step_stuck)

lemma sem_wait_w_stuck: "r_sem w = 0 \<Longrightarrow> w_sem w = 0 \<Longrightarrow> sem_wait_w p w = None"
  by (simp add: sem_wait_w_def peer_step_stuck)

lemma peer_step_writable:
  assumes "r_sem w = 0" and "w_sem w = 1"
  shows "peer_step p w = w \<or> (r_sem (peer_step p w) = 1 \<and> w_sem (peer_step p w) = 0)"
  using assms unfolding peer_step_def
  by (cases "(p, peer w, w)" rule: peer_act.cases) simp_all

lemma sem_wait_r_takes_permit:
  assumes "r_sem w + w_sem w = 1" and "sem_wait_r p w = Some w1"
  shows "r_sem w1 = 0 \<and> w_sem w1 = 0"
proof (cases "r_sem w = 0")
  case True
  with assms(1) have w: "w_sem w = 1" by simp
  from peer_step_writable [OF True w, of p] show ?thesis
    using assms(2) True by (auto simp: sem_wait_r_def Let_def split: if_splits)
next
  case False
  with assms(1) have "r_sem w = 1" "w_sem w = 0" by simp_all
  with assms(2) show ?thesis
    by (auto simp: sem_wait_r_def)
qed

lemma read_error_world:
  assumes "read_shared_memory p w h d0 = Returns r" and "rd_rc r \<noteq> 0"
  shows "sem_wait_r p w = Some (rd_world r) \<and>
         (rd_len r = 0 \<or> MAX_BYTES < rd_len r \<or> rd_data r = Null)"
  using assms
  by (auto simp: read_shared_memory_def Let_def obind_def
      split: option.splits if_splits prod.splits outcome.splits)

text \<open>
  Claim C9. Let the handshake be in a state with one permit, (R, W) = (1, 0) or (0, 1).
  When \<^verbatim>\<open>read_shared_memory\<close> returns an error, the reported length is 0 or above
  \<open>MAX_BYTES\<close> or the allocation failed; the read semaphore has been consumed and the
  write semaphore has not been posted, so (R, W) = (0, 0); the peer cannot run; and from
  then on every \<^verbatim>\<open>read_shared_memory\<close> blocks and every \<^verbatim>\<open>write_shared_memory\<close>
  that passes its assertion blocks. A blocked call changes nothing, so this lasts.
\<close>

theorem read_error_deadlocks:
  assumes st: "r_sem w + w_sem w = 1" and rd: "read_shared_memory p w h d0 = Returns r"
    and err: "rd_rc r \<noteq> 0"
  shows "r_sem (rd_world r) = 0 \<and> w_sem (rd_world r) = 0 \<and>
         (rd_len r = 0 \<or> MAX_BYTES < rd_len r \<or> rd_data r = Null) \<and>
         peer_step p (rd_world r) = rd_world r \<and>
         (\<forall>h' d'. read_shared_memory p (rd_world r) h' d' = Blocks) \<and>
         (\<forall>data len ident tot.
            write_shared_memory p (rd_world r) data len ident tot
            = (if write_asserts p len then Blocks else Aborts))"
proof -
  from read_error_world [OF rd err] have sw: "sem_wait_r p w = Some (rd_world r)"
    and cause: "rd_len r = 0 \<or> MAX_BYTES < rd_len r \<or> rd_data r = Null"
    by simp_all
  from sem_wait_r_takes_permit [OF st sw] have z: "r_sem (rd_world r) = 0" "w_sem (rd_world r) = 0"
    by simp_all
  have a: "peer_step p (rd_world r) = rd_world r"
    using z by (rule peer_step_stuck)
  have b: "\<forall>h' d'. read_shared_memory p (rd_world r) h' d' = Blocks"
    by (simp add: read_shared_memory_def sem_wait_r_stuck [OF z])
  have c: "\<forall>data len ident tot.
            write_shared_memory p (rd_world r) data len ident tot
            = (if write_asserts p len then Blocks else Aborts)"
    by (simp add: write_shared_memory_def sem_wait_w_stuck [OF z])
  from z cause a b c show ?thesis by blast
qed

lemma read_zero_len:
  "read_shared_memory lp64 (published zero_len_fragment Idle) empty_heap Wild
   = Returns \<lparr>rd_rc = 1, rd_data = Wild, rd_len = 0, rd_total = 3, rd_id = 1,
              rd_world = \<lparr>seg = zero_len_fragment, r_sem = 0, w_sem = 0, peer = Idle\<rparr>,
              rd_heap = empty_heap\<rparr>"
  by (simp add: read_shared_memory_def sem_wait_r_def published_def zero_len_fragment_def)

theorem read_error_deadlocks_witness:
  "r_sem (published zero_len_fragment Idle) + w_sem (published zero_len_fragment Idle) = 1 \<and>
   read_shared_memory lp64 (published zero_len_fragment Idle) empty_heap Wild
   = Returns \<lparr>rd_rc = 1, rd_data = Wild, rd_len = 0, rd_total = 3, rd_id = 1,
              rd_world = \<lparr>seg = zero_len_fragment, r_sem = 0, w_sem = 0, peer = Idle\<rparr>,
              rd_heap = empty_heap\<rparr> \<and>
   read_shared_memory lp64 \<lparr>seg = zero_len_fragment, r_sem = 0, w_sem = 0, peer = Idle\<rparr>
     empty_heap Wild = Blocks \<and>
   write_asserts lp64 3 \<and>
   write_shared_memory lp64 \<lparr>seg = zero_len_fragment, r_sem = 0, w_sem = 0, peer = Idle\<rparr>
     [1, 2, 3] 3 0 1 = Blocks"
proof -
  have st: "r_sem (published zero_len_fragment Idle) + w_sem (published zero_len_fragment Idle) = 1"
    by (simp add: published_def)
  have wa: "write_asserts lp64 3"
    by (simp add: write_asserts_def write_limit_lp64)
  note t = read_error_deadlocks [OF st read_zero_len]
  from t have "read_shared_memory lp64 \<lparr>seg = zero_len_fragment, r_sem = 0, w_sem = 0, peer = Idle\<rparr>
     empty_heap Wild = Blocks"
    by simp
  moreover from t wa have "write_shared_memory lp64
     \<lparr>seg = zero_len_fragment, r_sem = 0, w_sem = 0, peer = Idle\<rparr> [1, 2, 3] 3 0 1 = Blocks"
    by simp
  ultimately show ?thesis
    using st wa read_zero_len by simp
qed

section \<open>Sending to a collecting peer\<close>

lemma write_collects:
  assumes ok: "platform_ok p" and v: "valid_call p (d, ulen, ident, tot)"
    and c: "peer w = Collects ss"
    and st: "(r_sem w = 0 \<and> w_sem w = 1) \<or>
             (r_sem w = 1 \<and> w_sem w = 0 \<and> 0 < seg_len (seg w) \<and>
              seg_len (seg w) \<le> MAX_BYTES - header_size p)"
  shows "\<exists>ws ss'. write_shared_memory p w d ulen ident tot = Returns (0, ws) \<and>
           peer ws = Collects ss' \<and> r_sem ws = 1 \<and> w_sem ws = 0 \<and>
           0 < seg_len (seg ws) \<and> seg_len (seg ws) \<le> MAX_BYTES - header_size p \<and>
           carries (seg ws) (d, ulen, ident, tot) \<and>
           publications ws = publications w @ [seg ws]"
proof -
  from v have a: "write_asserts p ulen" and l: "ulen \<le> length d"
    by (simp_all add: valid_call_def)
  from a have len: "0 < ulen" "ulen \<le> MAX_BYTES - header_size p"
    by (simp_all add: write_asserts_def write_limit_eq [OF ok])
  from st show ?thesis
  proof
    assume "r_sem w = 0 \<and> w_sem w = 1"
    then show ?thesis
      using a l len c
      by (simp add: write_shared_memory_def sem_wait_w_def sem_post_r_def store_fragment_def
          carries_def publications_def)
  next
    assume "r_sem w = 1 \<and> w_sem w = 0 \<and> 0 < seg_len (seg w) \<and>
            seg_len (seg w) \<le> MAX_BYTES - header_size p"
    then show ?thesis
      using a l len c
      by (simp add: write_shared_memory_def sem_wait_w_def sem_post_r_def store_fragment_def
          carries_def publications_def peer_step_def)
  qed
qed

lemma run_calls_collects:
  assumes ok: "platform_ok p"
  shows "\<forall>c\<in>set cs. valid_call p c \<Longrightarrow> peer w = Collects ss \<Longrightarrow>
         (r_sem w = 0 \<and> w_sem w = 1) \<or>
         (r_sem w = 1 \<and> w_sem w = 0 \<and> 0 < seg_len (seg w) \<and>
          seg_len (seg w) \<le> MAX_BYTES - header_size p) \<Longrightarrow>
         \<exists>ws segs. run_calls p w cs = Returns (0, ws) \<and>
           publications ws = publications w @ segs \<and> list_all2 carries segs cs"
proof (induction cs arbitrary: w ss)
  case Nil
  then show ?case by simp
next
  case (Cons c cs)
  obtain d ulen ident tot where c: "c = (d, ulen, ident, tot)"
    by (cases c)
  from Cons.prems(1) have v: "valid_call p (d, ulen, ident, tot)"
    and vs: "\<forall>c\<in>set cs. valid_call p c"
    by (simp_all add: c)
  from write_collects [OF ok v Cons.prems(2,3)]
  obtain w1 ss1 where w: "write_shared_memory p w d ulen ident tot = Returns (0, w1)"
    and p1: "peer w1 = Collects ss1"
    and s1: "(r_sem w1 = 0 \<and> w_sem w1 = 1) \<or>
             (r_sem w1 = 1 \<and> w_sem w1 = 0 \<and> 0 < seg_len (seg w1) \<and>
              seg_len (seg w1) \<le> MAX_BYTES - header_size p)"
    and ca: "carries (seg w1) (d, ulen, ident, tot)"
    and pu: "publications w1 = publications w @ [seg w1]"
    by blast
  from Cons.IH [OF vs p1 s1]
  obtain ws segs where r: "run_calls p w1 cs = Returns (0, ws)"
    and pw: "publications ws = publications w1 @ segs" and la: "list_all2 carries segs cs"
    by blast
  have "run_calls p w (c # cs) = Returns (0, ws)"
    by (simp add: c w r)
  moreover have "publications ws = publications w @ (seg w1 # segs)"
    by (simp add: pw pu)
  moreover have "list_all2 carries (seg w1 # segs) (c # cs)"
    using ca la by (simp add: c)
  ultimately show ?case
    by blast
qed


section \<open>Receiving from a publishing peer\<close>

lemma mem_write_fresh:
  "mem_write \<lparr>blocks = B(a \<mapsto> replicate n None), next_addr = a', plan = pl\<rparr> (Addr a) 0 xs
   = (if length xs \<le> n
      then Returns \<lparr>blocks = B(a \<mapsto> xs @ replicate (n - length xs) None), next_addr = a', plan = pl\<rparr>
      else Undefined OutOfBounds)"
  by simp

lemma read_from_publisher:
  assumes ok: "platform_ok p" and v: "valid_call p (d, ulen, ident, tot)"
    and ca: "carries sg (d, ulen, ident, tot)"
  shows "read_shared_memory p
           \<lparr>seg = s, r_sem = 0, w_sem = 1, peer = Publishes (sg # ss)\<rparr>
           \<lparr>blocks = B, next_addr = a, plan = []\<rparr> d0
         = Returns \<lparr>rd_rc = 0, rd_data = Addr a, rd_len = ulen, rd_total = tot, rd_id = ident,
                    rd_world = \<lparr>seg = zero_segment, r_sem = 0, w_sem = 1, peer = Publishes ss\<rparr>,
                    rd_heap = \<lparr>blocks = B(a \<mapsto> map Some (take ulen d)), next_addr = a + 1,
                               plan = []\<rparr>\<rparr>"
proof -
  from v have a: "write_asserts p ulen" and l: "ulen \<le> length d"
    by (simp_all add: valid_call_def)
  from a have len: "0 < ulen" "ulen \<le> MAX_BYTES - header_size p"
    by (simp_all add: write_asserts_def write_limit_eq [OF ok])
  then have len2: "\<not> MAX_BYTES < ulen" "\<not> MAX_BYTES - header_size p < ulen"
    by simp_all
  have sw: "sem_wait_r p \<lparr>seg = s, r_sem = 0, w_sem = 1, peer = Publishes (sg # ss)\<rparr>
        = Some \<lparr>seg = sg, r_sem = 0, w_sem = 0, peer = Publishes ss\<rparr>"
    by (simp add: sem_wait_r_def peer_step_def)
  from ca have hd: "seg_id sg = ident" "seg_len sg = ulen" "seg_total sg = tot"
    and pl: "\<forall>k < ulen. seg_payload sg k = d ! k"
    by (simp_all add: carries_def)
  have bytes: "map (\<lambda>k. Some (seg_payload sg k)) [0..<ulen] = map Some (take ulen d)"
    using l pl by (intro nth_equalityI) simp_all
  have m: "min (length d) ulen = ulen"
    using l by simp
  show ?thesis
    unfolding read_shared_memory_def sw
    using len len2
    by (simp add: hd Let_def malloc_def alloc_ok_def obind_def bytes sem_post_w_def m)
qed

lemma memcpy_blocks:
  assumes "B src = Some xs" and "B dst = Some blk" and "n \<le> length xs"
    and "off + n \<le> length blk"
  shows "memcpy \<lparr>blocks = B, next_addr = a, plan = pl\<rparr> (Addr dst) off (Addr src) n
         = Returns \<lparr>blocks = B(dst \<mapsto> take off blk @ take n xs @ drop (off + n) blk),
                    next_addr = a, plan = pl\<rparr>"
  using assms by (simp add: memcpy_def obind_def min_absorb2)

lemma free_block:
  assumes "B x = Some xs"
  shows "free \<lparr>blocks = B, next_addr = a, plan = pl\<rparr> (Addr x)
         = Returns \<lparr>blocks = B(x := None), next_addr = a, plan = pl\<rparr>"
  using assms by simp

lemma malloc_ok:
  "malloc \<lparr>blocks = B, next_addr = a, plan = []\<rparr> n
   = (Addr a, \<lparr>blocks = B(a \<mapsto> replicate n None), next_addr = a + 1, plan = []\<rparr>)"
  by (simp add: malloc_def alloc_ok_def)

lemma block_fill:
  assumes "off + k \<le> length m" and "off + k \<le> N"
  shows "take off (map Some (take off m) @ replicate (N - off) None)
           @ map Some (take k (drop off m))
           @ drop (off + k) (map Some (take off m) @ replicate (N - off) None)
         = map Some (take (off + k) m) @ replicate (N - (off + k)) None"
proof -
  from assms(1) have lo: "length (map Some (take off m)) = off"
    by simp
  have t: "take off (map Some (take off m) @ replicate (N - off) None) = map Some (take off m)"
    using lo by simp
  have d: "drop (off + k) (map Some (take off m) @ replicate (N - off) None)
           = replicate (N - (off + k)) None"
    using lo by simp
  have "take (off + k) m = take off m @ take k (drop off m)"
    by (rule take_add)
  then show ?thesis
    unfolding t d by simp
qed

lemma no_wrap:
  assumes ok: "platform_ok p" and pos: "0 < length m"
    and L: "length m + maxlen p \<le> size_mod p"
  shows "length m < size_mod p"
    and "chunk_count p (length m) * maxlen p < size_mod p"
    and "chunk_count p (length m) < size_mod p"
proof -
  have M: "0 < maxlen p" using ok by (rule maxlen_pos)
  with L show S: "length m < size_mod p" by simp
  note b = chunk_count_bounds [OF ok pos S]
  have "chunk_count p (length m) * maxlen p
        = (chunk_count p (length m) - 1) * maxlen p + maxlen p"
    using b(1) by (simp add: diff_mult_distrib)
  with b(2) L show nM: "chunk_count p (length m) * maxlen p < size_mod p"
    by simp
  have "chunk_count p (length m) \<le> chunk_count p (length m) * maxlen p"
    using M by simp
  with nM show "chunk_count p (length m) < size_mod p"
    by linarith
qed

lemma recv_loop_paired:
  assumes ok: "platform_ok p" and pos: "0 < length m"
    and L: "length m + maxlen p \<le> size_mod p"
    and sg: "list_all2 carries segs (send_calls p m (length m))"
  shows "i \<le> chunk_count p (length m) - 1 \<Longrightarrow> ad < a \<Longrightarrow>
         B ad = Some (map Some (take (i * maxlen p) m)
                      @ replicate (chunk_count p (length m) * maxlen p - i * maxlen p) None) \<Longrightarrow>
         \<exists>s' B' a'.
           recv_loop p
             \<lparr>seg = s, r_sem = 0, w_sem = 1, peer = Publishes (drop i segs)\<rparr>
             \<lparr>blocks = B, next_addr = a, plan = []\<rparr> (Addr ad) (maxlen p)
             (chunk_count p (length m) - 1) i
           = Returns
               (\<lparr>seg = s', r_sem = 0, w_sem = 1,
                  peer = Publishes (drop (chunk_count p (length m) - 1) segs)\<rparr>,
                \<lparr>blocks = B', next_addr = a', plan = []\<rparr>, chunk_count p (length m) - 1) \<and>
           ad < a' \<and>
           B' ad = Some (map Some (take ((chunk_count p (length m) - 1) * maxlen p) m)
                         @ replicate (chunk_count p (length m) * maxlen p
                                      - (chunk_count p (length m) - 1) * maxlen p) None)"
proof (induction "chunk_count p (length m) - 1 - i" arbitrary: i s B a)
  case 0
  then have i: "i = chunk_count p (length m) - 1" by simp
  show ?case
    using "0.prems"(2,3) unfolding i
    by (subst recv_loop.simps) auto
next
  case (Suc k)
  let ?n = "chunk_count p (length m)" and ?M = "maxlen p" and ?calls = "send_calls p m (length m)"
  note S = no_wrap [OF ok pos L]
  from Suc.hyps(2) have i: "i < ?n - 1" by simp
  then have i': "i < ?n" by simp
  note f = frag_len_bounds [OF ok pos S(1) i']
  have fl: "frag_len p (length m) i = ?M"
    using i by (simp add: frag_len_def)
  have nth: "?calls ! i = (drop (i * ?M) m, ?M, i mod uint_mod p, ?n)"
    using send_calls_nth [OF ok pos S(1) i'] fl by simp
  have ls: "length segs = ?n"
    using sg by (simp add: list_all2_lengthD send_calls_length)
  have dr: "drop i segs = segs ! i # drop (Suc i) segs"
    using i' ls by (simp add: Cons_nth_drop_Suc)
  have ca: "carries (segs ! i) (drop (i * ?M) m, ?M, i mod uint_mod p, ?n)"
    using list_all2_nthD [OF sg, of i] i' ls nth by simp
  have "?calls ! i \<in> set ?calls"
    using i' by (simp add: send_calls_length)
  then have v: "valid_call p (drop (i * ?M) m, ?M, i mod uint_mod p, ?n)"
    using send_calls_valid [OF ok pos S(1) order_refl] nth by auto
  have fit: "i * ?M + ?M \<le> length m"
    using f(3) fl by simp
  have fitN: "i * ?M + ?M \<le> ?n * ?M"
  proof -
    from i' have "Suc i \<le> ?n" by simp
    then have "Suc i * ?M \<le> ?n * ?M" by (rule mult_le_mono1)
    then show ?thesis by simp
  qed
  have iM: "sz_mul p i ?M = i * ?M"
    using fit S(1) by (intro sz_mul_id) simp
  let ?xs = "map Some (take ?M (drop (i * ?M) m))"
  let ?blk = "map Some (take (i * ?M) m) @ replicate (?n * ?M - i * ?M) None"
  let ?new = "map Some (take (i * ?M + ?M) m) @ replicate (?n * ?M - (i * ?M + ?M)) None"
  have lx: "length ?xs = ?M"
    using fit by simp
  have lb: "length ?blk = ?n * ?M"
    using fit fitN by simp
  have ne: "ad \<noteq> a"
    using Suc.prems(2) by simp
  define w0 where "w0 = \<lparr>seg = s, r_sem = 0, w_sem = 1, peer = Publishes (drop i segs)\<rparr>"
  define h0 where "h0 = \<lparr>blocks = B, next_addr = a, plan = []\<rparr>"
  define w1 where
    "w1 = \<lparr>seg = zero_segment, r_sem = 0, w_sem = 1, peer = Publishes (drop (Suc i) segs)\<rparr>"
  define h1 where "h1 = \<lparr>blocks = B(a \<mapsto> ?xs), next_addr = a + 1, plan = []\<rparr>"
  define h2 where
    "h2 = \<lparr>blocks = (B(a \<mapsto> ?xs))(ad \<mapsto> ?new), next_addr = a + 1, plan = []\<rparr>"
  define h3 where
    "h3 = \<lparr>blocks = ((B(a \<mapsto> ?xs))(ad \<mapsto> ?new))(a := None), next_addr = a + 1, plan = []\<rparr>"
  define r1 where
    "r1 = \<lparr>rd_rc = 0, rd_data = Addr a, rd_len = ?M, rd_total = ?n, rd_id = i mod uint_mod p,
            rd_world = w1, rd_heap = h1\<rparr>"
  have rd: "read_shared_memory p w0 h0 Wild = Returns r1"
    unfolding w0_def h0_def r1_def w1_def h1_def dr by (rule read_from_publisher [OF ok v ca])
  have sel: "rd_rc r1 = 0" "rd_data r1 = Addr a" "rd_len r1 = ?M" "rd_world r1 = w1"
    "rd_heap r1 = h1"
    by (simp_all add: r1_def)
  have tx: "take ?M ?xs = ?xs"
    using lx by simp
  have fill: "take (i * ?M) ?blk @ take ?M ?xs @ drop (i * ?M + ?M) ?blk = ?new"
    unfolding tx using fit fitN by (rule block_fill)
  have "memcpy h1 (Addr ad) (i * ?M) (Addr a) ?M
        = Returns \<lparr>blocks = (B(a \<mapsto> ?xs))(ad \<mapsto> take (i * ?M) ?blk @ take ?M ?xs
                                                   @ drop (i * ?M + ?M) ?blk),
                   next_addr = a + 1, plan = []\<rparr>"
    unfolding h1_def using ne Suc.prems(3) lx lb fitN by (intro memcpy_blocks) simp_all
  then have mc: "memcpy h1 (Addr ad) (sz_mul p i ?M) (Addr a) ?M = Returns h2"
    unfolding fill h2_def iM .
  have fr: "free h2 (Addr a) = Returns h3"
    unfolding h2_def h3_def using ne by (intro free_block [of _ _ ?xs]) simp
  have step: "recv_loop p w0 h0 (Addr ad) ?M (?n - 1) i
              = recv_loop p w1 h3 (Addr ad) ?M (?n - 1) (i + 1)"
    using i by (subst recv_loop.simps) (simp del: free.simps add: rd sel mc fr)
  have k: "k = ?n - 1 - (i + 1)"
    using Suc.hyps(2) by simp
  have le: "i + 1 \<le> ?n - 1"
    using i by simp
  have lt: "ad < a + 1"
    using Suc.prems(2) by simp
  define B3 where "B3 = ((B(a \<mapsto> ?xs))(ad \<mapsto> ?new))(a := None)"
  have blk: "B3 ad
             = Some (map Some (take ((i + 1) * ?M) m) @ replicate (?n * ?M - (i + 1) * ?M) None)"
    unfolding B3_def using ne by (simp add: add.commute)
  have dr1: "drop (i + 1) segs = drop (Suc i) segs"
    by simp
  have "\<exists>s' B' a'.
           recv_loop p
             \<lparr>seg = zero_segment, r_sem = 0, w_sem = 1, peer = Publishes (drop (i + 1) segs)\<rparr>
             \<lparr>blocks = B3, next_addr = a + 1, plan = []\<rparr> (Addr ad) ?M (?n - 1) (i + 1)
           = Returns
               (\<lparr>seg = s', r_sem = 0, w_sem = 1, peer = Publishes (drop (?n - 1) segs)\<rparr>,
                \<lparr>blocks = B', next_addr = a', plan = []\<rparr>, ?n - 1) \<and>
           ad < a' \<and>
           B' ad = Some (map Some (take ((?n - 1) * ?M) m)
                         @ replicate (?n * ?M - (?n - 1) * ?M) None)"
    using k le lt blk by (rule Suc.hyps(1))
  then show ?case
    unfolding step [unfolded w0_def h0_def w1_def h3_def] dr1 B3_def .
qed

lemma realloc_block:
  assumes "B x = Some bs"
  shows "realloc \<lparr>blocks = B, next_addr = a, plan = []\<rparr> (Addr x) n
         = Returns (Addr x, \<lparr>blocks = B(x \<mapsto> take n bs @ replicate (n - length bs) None),
                             next_addr = a, plan = []\<rparr>)"
  using assms by (simp add: alloc_ok_def)

lemma drop_last_call:
  assumes "0 < length xs"
  shows "drop (length xs - 1) xs = [xs ! (length xs - 1)]"
proof -
  from assms have "length xs - 1 < length xs" by simp
  then have "drop (length xs - 1) xs = xs ! (length xs - 1) # drop (Suc (length xs - 1)) xs"
    by (rule Cons_nth_drop_Suc [symmetric])
  with assms show ?thesis by simp
qed

lemma recv_last_paired:
  assumes ok: "platform_ok p" and pos: "0 < length m"
    and L: "length m + maxlen p \<le> size_mod p"
    and sg: "list_all2 carries segs (send_calls p m (length m))"
    and n2: "1 < chunk_count p (length m)" and ad: "ad < a"
    and blk: "B ad = Some (map Some (take ((chunk_count p (length m) - 1) * maxlen p) m)
                           @ replicate (chunk_count p (length m) * maxlen p
                                        - (chunk_count p (length m) - 1) * maxlen p) None)"
  shows "\<exists>B' a'.
           recv_last p
             \<lparr>seg = s, r_sem = 0, w_sem = 1,
               peer = Publishes (drop (chunk_count p (length m) - 1) segs)\<rparr>
             \<lparr>blocks = B, next_addr = a, plan = []\<rparr> (Addr ad) l0 (maxlen p)
             (chunk_count p (length m)) (chunk_count p (length m) - 1)
           = Returns \<lparr>rv_rc = 0, rv_data = Addr ad, rv_len = length m,
                      rv_world = \<lparr>seg = zero_segment, r_sem = 0, w_sem = 1, peer = Publishes []\<rparr>,
                      rv_heap = \<lparr>blocks = B', next_addr = a', plan = []\<rparr>\<rparr> \<and>
           B' ad = Some (map Some m)"
proof -
  let ?n = "chunk_count p (length m)" and ?M = "maxlen p" and ?calls = "send_calls p m (length m)"
  let ?i = "?n - 1"
  note S = no_wrap [OF ok pos L]
  note b = chunk_count_bounds [OF ok pos S(1)]
  have i': "?i < ?n" using n2 by simp
  note f = frag_len_bounds [OF ok pos S(1) i']
  define r where "r = frag_len p (length m) ?i"
  have r: "r = length m - ?i * ?M"
    by (simp add: r_def frag_len_def mult.commute)
  have tot: "?i * ?M + r = length m"
    using b(2) r by simp
  have nth: "?calls ! ?i = (drop (?i * ?M) m, r, ?i mod uint_mod p, ?n)"
    using send_calls_nth [OF ok pos S(1) i'] by (simp add: r_def)
  have ls: "length segs = ?n"
    using sg by (simp add: list_all2_lengthD send_calls_length)
  have "drop (length segs - 1) segs = [segs ! (length segs - 1)]"
    using n2 ls by (intro drop_last_call) simp
  then have dr: "drop ?i segs = [segs ! ?i]"
    by (simp add: ls)
  have ca: "carries (segs ! ?i) (drop (?i * ?M) m, r, ?i mod uint_mod p, ?n)"
    using list_all2_nthD [OF sg, of ?i] i' ls nth by simp
  have "?calls ! ?i \<in> set ?calls"
    using i' by (simp add: send_calls_length)
  then have v: "valid_call p (drop (?i * ?M) m, r, ?i mod uint_mod p, ?n)"
    using send_calls_valid [OF ok pos S(1) order_refl] nth by auto
  have rM: "r \<le> ?M" "0 < r"
    using f by (simp_all add: r_def)
  have nM: "?n * ?M = ?i * ?M + ?M"
    using b(1) by (simp add: diff_mult_distrib)
  have fitN: "?i * ?M + r \<le> ?n * ?M"
    using rM nM by simp
  have iM: "sz_mul p ?i ?M = ?i * ?M"
    using tot S(1) by (intro sz_mul_id) simp
  have s1: "sz_sub p ?n 1 = ?i"
    using b(1) S(3) by (intro sz_sub_id) simp_all
  have total: "sz_add p (sz_mul p (sz_sub p ?n 1) ?M) r = length m"
    unfolding s1 iM using tot S(1) by (simp add: sz_add_id)
  let ?xs = "map Some (take r (drop (?i * ?M) m))"
  let ?blk = "map Some (take (?i * ?M) m) @ replicate (?n * ?M - ?i * ?M) None"
  let ?new = "map Some (take (?i * ?M + r) m) @ replicate (?n * ?M - (?i * ?M + r)) None"
  have lx: "length ?xs = r"
    using tot by simp
  have lb: "length ?blk = ?n * ?M"
    using tot fitN by simp
  have ne: "ad \<noteq> a"
    using ad by simp
  define w0 where "w0 = \<lparr>seg = s, r_sem = 0, w_sem = 1, peer = Publishes (drop ?i segs)\<rparr>"
  define h0 where "h0 = \<lparr>blocks = B, next_addr = a, plan = []\<rparr>"
  define w1 where "w1 = \<lparr>seg = zero_segment, r_sem = 0, w_sem = 1, peer = Publishes []\<rparr>"
  define h1 where "h1 = \<lparr>blocks = B(a \<mapsto> ?xs), next_addr = a + 1, plan = []\<rparr>"
  define h2 where
    "h2 = \<lparr>blocks = (B(a \<mapsto> ?xs))(ad \<mapsto> ?new), next_addr = a + 1, plan = []\<rparr>"
  define h3 where
    "h3 = \<lparr>blocks = ((B(a \<mapsto> ?xs))(ad \<mapsto> ?new))
                       (ad \<mapsto> take (length m) ?new @ replicate (length m - length ?new) None),
            next_addr = a + 1, plan = []\<rparr>"
  define r1 where
    "r1 = \<lparr>rd_rc = 0, rd_data = Addr a, rd_len = r, rd_total = ?n, rd_id = ?i mod uint_mod p,
            rd_world = w1, rd_heap = h1\<rparr>"
  have rd: "read_shared_memory p w0 h0 Wild = Returns r1"
    unfolding w0_def h0_def r1_def w1_def h1_def dr by (rule read_from_publisher [OF ok v ca])
  have sel: "rd_rc r1 = 0" "rd_data r1 = Addr a" "rd_len r1 = r" "rd_world r1 = w1"
    "rd_heap r1 = h1"
    by (simp_all add: r1_def)
  have tx: "take r ?xs = ?xs"
    using lx by simp
  have fill: "take (?i * ?M) ?blk @ take r ?xs @ drop (?i * ?M + r) ?blk = ?new"
    unfolding tx using tot fitN by (intro block_fill) simp_all
  have "memcpy h1 (Addr ad) (?i * ?M) (Addr a) r
        = Returns \<lparr>blocks = (B(a \<mapsto> ?xs))(ad \<mapsto> take (?i * ?M) ?blk @ take r ?xs
                                                   @ drop (?i * ?M + r) ?blk),
                   next_addr = a + 1, plan = []\<rparr>"
    unfolding h1_def using ne blk lx lb fitN by (intro memcpy_blocks) simp_all
  then have mc: "memcpy h1 (Addr ad) (sz_mul p ?i ?M) (Addr a) r = Returns h2"
    unfolding fill h2_def iM .
  have ra: "realloc h2 (Addr ad) (length m) = Returns (Addr ad, h3)"
    unfolding h2_def h3_def by (intro realloc_block) simp
  have new: "?new = map Some m @ replicate (?n * ?M - length m) None"
    unfolding tot by simp
  have c2: "blocks h2 ad = Some (map Some m)" if "r = ?M"
  proof -
    from that tot nM have "?n * ?M = length m" by simp
    then show ?thesis
      unfolding h2_def new by simp
  qed
  have c3: "blocks h3 ad = Some (map Some m)"
    unfolding h3_def new using tot fitN by simp
  have res: "recv_last p w0 h0 (Addr ad) l0 ?M ?n ?i
             = Returns \<lparr>rv_rc = 0, rv_data = Addr ad, rv_len = length m, rv_world = w1,
                        rv_heap = (if r \<noteq> ?M then h3 else h2)\<rparr>"
    using n2 unfolding recv_last_def
    by (simp del: realloc.simps One_nat_def add: obind_def rd sel mc total ra)
  show ?thesis
  proof (cases "r = ?M")
    case True
    with res c2 show ?thesis
      unfolding w0_def h0_def w1_def h2_def by auto
  next
    case False
    with res c3 show ?thesis
      unfolding w0_def h0_def w1_def h3_def by auto
  qed
qed

lemma recv_item_paired:
  assumes ok: "platform_ok p" and pos: "0 < length m"
    and L: "length m + maxlen p \<le> size_mod p"
    and sg: "list_all2 carries segs (send_calls p m (length m))"
  shows "\<exists>B' a'.
           recv_item p
             \<lparr>seg = s, r_sem = 0, w_sem = 1, peer = Publishes segs\<rparr>
             \<lparr>blocks = B, next_addr = a, plan = []\<rparr> d0 l0
           = Returns \<lparr>rv_rc = 0, rv_data = Addr (a + 1), rv_len = length m,
                      rv_world = \<lparr>seg = zero_segment, r_sem = 0, w_sem = 1, peer = Publishes []\<rparr>,
                      rv_heap = \<lparr>blocks = B', next_addr = a', plan = []\<rparr>\<rparr> \<and>
           B' (a + 1) = Some (map Some m)"
proof -
  let ?n = "chunk_count p (length m)" and ?M = "maxlen p" and ?calls = "send_calls p m (length m)"
  note S = no_wrap [OF ok pos L]
  note b = chunk_count_bounds [OF ok pos S(1)]
  have i0: "0 < ?n" using b(1) by simp
  note f = frag_len_bounds [OF ok pos S(1) i0]
  define f0 where "f0 = frag_len p (length m) 0"
  have f0: "0 < f0" "f0 \<le> ?M" "f0 \<le> length m"
    using f by (simp_all add: f0_def)
  have nth: "?calls ! 0 = (m, f0, 0, ?n)"
    using send_calls_nth [OF ok pos S(1) i0] by (simp add: f0_def)
  have ls: "length segs = ?n"
    using sg by (simp add: list_all2_lengthD send_calls_length)
  have "drop 0 segs = segs ! 0 # drop (Suc 0) segs"
    using i0 ls by (intro Cons_nth_drop_Suc [symmetric]) simp
  then have dr: "segs = segs ! 0 # drop 1 segs"
    by simp
  have ca: "carries (segs ! 0) (m, f0, 0, ?n)"
    using list_all2_nthD [OF sg, of 0] i0 ls nth by simp
  have "?calls ! 0 \<in> set ?calls"
    using i0 by (simp add: send_calls_length)
  then have v: "valid_call p (m, f0, 0, ?n)"
    using send_calls_valid [OF ok pos S(1) order_refl] nth by auto
  have "?n * f0 \<le> ?n * ?M"
    using f0(2) by (rule mult_le_mono2)
  then have "?n * f0 < size_mod p"
    using S(2) by (rule le_less_trans)
  then have nf: "sz_mul p ?n f0 = ?n * f0"
    by (rule sz_mul_id)
  have s1: "sz_sub p ?n 1 = ?n - 1"
    using b(1) S(3) by (intro sz_sub_id) simp_all
  let ?xs = "map Some (take f0 m)"
  let ?blk = "replicate (?n * f0) (None :: byte option)"
  let ?new = "?xs @ replicate (?n * f0 - f0) None"
  have lx: "length ?xs = f0"
    using f0(3) by simp
  have fit: "f0 \<le> ?n * f0"
    using i0 by simp
  define w0 where "w0 = \<lparr>seg = s, r_sem = 0, w_sem = 1, peer = Publishes segs\<rparr>"
  define h0 where "h0 = \<lparr>blocks = B, next_addr = a, plan = []\<rparr>"
  define w1 where "w1 = \<lparr>seg = zero_segment, r_sem = 0, w_sem = 1, peer = Publishes (drop 1 segs)\<rparr>"
  define h1 where "h1 = \<lparr>blocks = B(a \<mapsto> ?xs), next_addr = a + 1, plan = []\<rparr>"
  define hm where
    "hm = \<lparr>blocks = (B(a \<mapsto> ?xs))(a + 1 \<mapsto> ?blk), next_addr = a + 1 + 1, plan = []\<rparr>"
  define h2 where
    "h2 = \<lparr>blocks = ((B(a \<mapsto> ?xs))(a + 1 \<mapsto> ?blk))(a + 1 \<mapsto> ?new),
            next_addr = a + 1 + 1, plan = []\<rparr>"
  define B3 where "B3 = (((B(a \<mapsto> ?xs))(a + 1 \<mapsto> ?blk))(a + 1 \<mapsto> ?new))(a := None)"
  define h3 where "h3 = \<lparr>blocks = B3, next_addr = a + 1 + 1, plan = []\<rparr>"
  define r1 where
    "r1 = \<lparr>rd_rc = 0, rd_data = Addr a, rd_len = f0, rd_total = ?n, rd_id = 0,
            rd_world = w1, rd_heap = h1\<rparr>"
  have rd0: "read_shared_memory p
          \<lparr>seg = s, r_sem = 0, w_sem = 1, peer = Publishes (segs ! 0 # drop 1 segs)\<rparr>
          h0 Wild = Returns r1"
    unfolding h0_def r1_def w1_def h1_def by (rule read_from_publisher [OF ok v ca])
  have rd: "read_shared_memory p w0 h0 Wild = Returns r1"
    unfolding w0_def by (subst dr) (rule rd0)
  have sel: "rd_rc r1 = 0" "rd_data r1 = Addr a" "rd_len r1 = f0" "rd_world r1 = w1"
    "rd_heap r1 = h1" "rd_total r1 = ?n"
    by (simp_all add: r1_def)
  have ma: "malloc h1 (sz_mul p ?n f0) = (Addr (a + 1), hm)"
    unfolding nf h1_def hm_def by (rule malloc_ok)
  have tx: "take f0 ?xs = ?xs"
    using lx by simp
  have "memcpy hm (Addr (a + 1)) 0 (Addr a) f0
        = Returns \<lparr>blocks = ((B(a \<mapsto> ?xs))(a + 1 \<mapsto> ?blk))
                      (a + 1 \<mapsto> take 0 ?blk @ take f0 ?xs @ drop (0 + f0) ?blk),
                   next_addr = a + 1 + 1, plan = []\<rparr>"
    unfolding hm_def using lx fit by (intro memcpy_blocks) simp_all
  then have mc: "memcpy hm (Addr (a + 1)) 0 (Addr a) f0 = Returns h2"
    unfolding h2_def tx by simp
  have fr: "free h2 (Addr a) = Returns h3"
    unfolding h2_def h3_def B3_def by (intro free_block [of _ _ ?xs]) simp
  have start: "recv_item p w0 h0 d0 l0
               = obind (recv_loop p w1 h3 (Addr (a + 1)) f0 (?n - 1) 1)
                   (\<lambda>(w1, h4, i). recv_last p w1 h4 (Addr (a + 1)) l0 f0 ?n i)"
    unfolding recv_item_def
    by (simp del: free.simps One_nat_def add: obind_def Let_def rd sel ma mc fr s1)
  have blk3: "B3 (a + 1) = Some ?new"
    by (simp add: B3_def)
  show ?thesis
  proof (cases "?n = 1")
    case True
    then have fl: "f0 = length m"
      by (simp add: f0_def frag_len_def)
    have lp: "recv_loop p w1 h3 (Addr (a + 1)) f0 (?n - 1) 1 = Returns (w1, h3, 1)"
      using True by (subst recv_loop.simps) simp
    have "drop 1 segs = []"
      using True ls by simp
    then have w1: "w1 = \<lparr>seg = zero_segment, r_sem = 0, w_sem = 1, peer = Publishes []\<rparr>"
      by (simp add: w1_def)
    have "sz_mul p 1 (length m) = length m"
      using S(1) by (simp add: sz_mul_id)
    then have "recv_item p w0 h0 d0 l0
          = Returns \<lparr>rv_rc = 0, rv_data = Addr (a + 1), rv_len = length m, rv_world = w1,
                     rv_heap = h3\<rparr>"
      unfolding start lp using True by (simp add: obind_def recv_last_def fl)
    moreover have "B3 (a + 1) = Some (map Some m)"
      unfolding blk3 using True fl by simp
    ultimately show ?thesis
      unfolding w0_def h0_def w1 h3_def by blast
  next
    case False
    with b(1) have n2: "1 < ?n" by simp
    then have fl: "f0 = ?M"
      by (simp add: f0_def frag_len_def)
    have le: "1 \<le> ?n - 1" using n2 by simp
    have lt: "a + 1 < a + 1 + 1" by simp
    have blk: "B3 (a + 1) = Some (map Some (take (1 * ?M) m) @ replicate (?n * ?M - 1 * ?M) None)"
      unfolding blk3 fl by simp
    from recv_loop_paired [where i = 1 and ad = "a + 1" and a = "a + 1 + 1" and B = B3
        and s = zero_segment, OF ok pos L sg le lt blk]
    obtain s' B' a' where
      lp: "recv_loop p w1 h3 (Addr (a + 1)) ?M (?n - 1) 1
           = Returns (\<lparr>seg = s', r_sem = 0, w_sem = 1, peer = Publishes (drop (?n - 1) segs)\<rparr>,
                      \<lparr>blocks = B', next_addr = a', plan = []\<rparr>, ?n - 1)"
      and a': "a + 1 < a'"
      and B': "B' (a + 1) = Some (map Some (take ((?n - 1) * ?M) m)
                                  @ replicate (?n * ?M - (?n - 1) * ?M) None)"
      unfolding w1_def h3_def by blast
    from recv_last_paired [where ad = "a + 1" and a = a' and B = B' and s = s' and ?l0.0 = l0,
        OF ok pos L sg n2 a' B']
    obtain B'' a'' where
      la: "recv_last p
             \<lparr>seg = s', r_sem = 0, w_sem = 1, peer = Publishes (drop (?n - 1) segs)\<rparr>
             \<lparr>blocks = B', next_addr = a', plan = []\<rparr> (Addr (a + 1)) l0 ?M ?n (?n - 1)
           = Returns \<lparr>rv_rc = 0, rv_data = Addr (a + 1), rv_len = length m,
                      rv_world = \<lparr>seg = zero_segment, r_sem = 0, w_sem = 1, peer = Publishes []\<rparr>,
                      rv_heap = \<lparr>blocks = B'', next_addr = a'', plan = []\<rparr>\<rparr>"
      and B'': "B'' (a + 1) = Some (map Some m)"
      by blast
    have "recv_item p w0 h0 d0 l0
          = Returns \<lparr>rv_rc = 0, rv_data = Addr (a + 1), rv_len = length m,
                     rv_world = \<lparr>seg = zero_segment, r_sem = 0, w_sem = 1, peer = Publishes []\<rparr>,
                     rv_heap = \<lparr>blocks = B'', next_addr = a'', plan = []\<rparr>\<rparr>"
      unfolding start fl lp obind_def by (simp only: outcome.case prod.case la)
    with B'' show ?thesis
      unfolding w0_def h0_def by blast
  qed
qed

section \<open>The peers and the calls they stand for\<close>

lemma peer_write_is_write_shared_memory:
  assumes "valid_call p (d, ulen, ident, tot)" and "0 < w_sem w"
    and "peer w = Writes ((d, ulen, ident, tot) # cs)"
  shows "write_shared_memory p (w\<lparr>peer := Idle\<rparr>) d ulen ident tot
         = Returns (0, (peer_step p w)\<lparr>peer := Idle\<rparr>)"
  using assms
  by (simp add: valid_call_def write_shared_memory_def sem_wait_w_def sem_post_r_def
      peer_step_def)

lemma publisher_is_write_shared_memory:
  assumes "valid_call p (d, ulen, ident, tot)" and "0 < w_sem w"
    and "peer w = Publishes (store_fragment (seg w) d ulen ident tot # ss)"
  shows "write_shared_memory p (w\<lparr>peer := Idle\<rparr>) d ulen ident tot
         = Returns (0, (peer_step p w)\<lparr>peer := Idle\<rparr>)"
  using assms
  by (simp add: valid_call_def write_shared_memory_def sem_wait_w_def sem_post_r_def
      peer_step_def)

lemma collector_is_read_shared_memory:
  assumes "0 < r_sem w" and "0 < seg_len (seg w)"
    and "seg_len (seg w) \<le> MAX_BYTES - header_size p" and "peer w = Collects ss"
    and "plan h = []"
  shows "\<exists>r. read_shared_memory p (w\<lparr>peer := Idle\<rparr>) h d0 = Returns r \<and> rd_rc r = 0 \<and>
             rd_world r = (peer_step p w)\<lparr>peer := Idle\<rparr>"
proof -
  from assms(3) have "\<not> MAX_BYTES < seg_len (seg w)"
    by simp
  with assms show ?thesis
    by (simp add: read_shared_memory_def sem_wait_r_def sem_post_w_def peer_step_def Let_def
        malloc_def alloc_ok_def obind_def)
qed

section \<open>Evaluating send_item and recv_item\<close>

lemmas recv_eval =
  recv_item_def recv_last_def recv_loop.simps read_shared_memory_def sem_wait_r_def
  sem_post_w_def peer_step_def fresh_world_def empty_heap_def malloc_def alloc_ok_def
  memcpy_def obind_def sz_mul_def sz_sub_def sz_add_def sz_def size_mod_lp64 header_size_lp64
  MAX_BYTES_def Let_def

lemma send_item_small:
  "send_item lp64 (fresh_world (Collects [])) [1, 2, 3] 3
   = Returns (0, \<lparr>seg = store_fragment zero_segment [1, 2, 3] 3 0 1, r_sem = 1, w_sem = 0,
                   peer = Collects []\<rparr>)"
  by (simp add: send_item_def send_loop.simps chunk_count_def send_args_def maxlen_lp64
      sz_mul_def sz_add_def sz_sub_def sz_def size_mod_lp64 uint_mod_lp64 Let_def
      write_shared_memory_def write_asserts_def write_limit_lp64 sem_wait_w_def sem_post_r_def
      fresh_world_def)

lemma publications_small:
  "publications \<lparr>seg = store_fragment zero_segment [1, 2, 3] 3 0 1, r_sem = 1, w_sem = 0,
                  peer = Collects []\<rparr>
   = [store_fragment zero_segment [1, 2, 3] 3 0 1]"
  by (simp add: publications_def)

lemma recv_item_small:
  "recv_item lp64 (fresh_world (Publishes [store_fragment zero_segment [1, 2, 3] 3 0 1]))
     empty_heap Null 0
   = Returns \<lparr>rv_rc = 0, rv_data = Addr 1, rv_len = 3,
              rv_world = \<lparr>seg = zero_segment, r_sem = 0, w_sem = 1, peer = Publishes []\<rparr>,
              rv_heap = \<lparr>blocks = [1 \<mapsto> [Some 1, Some 2, Some 3]], next_addr = 2, plan = []\<rparr>\<rparr>"
  by (simp add: recv_eval store_fragment_def upt_conv_Cons)

section \<open>C1: the round trip\<close>

text \<open>
  Claim C1. Let \<open>m\<close> be a message of positive length that fits the address space
  beside the mapped segment (so that the size \<^verbatim>\<open>total_chunk * size_per_chunk\<close> of the
  receive buffer does not wrap), let the channel be in its initial state
  (R, W) = (0, 1), and let no allocation fail. One end runs \<^verbatim>\<open>send_item\<close> on
  \<open>m\<close>; the process at its other end takes each fragment out of the region as a
  reader does and keeps what it took. Then \<^verbatim>\<open>send_item\<close> returns 0. The other end
  runs \<^verbatim>\<open>recv_item\<close> from the same initial state; the process at its other end puts
  into the region, one per transaction, the very region contents that \<^verbatim>\<open>send_item\<close>
  published. Then \<^verbatim>\<open>recv_item\<close> returns 0, the length it reports is the length of
  \<open>m\<close>, the buffer it hands out holds exactly the bytes of \<open>m\<close>, and the channel is
  back in state (0, 1) with every publication consumed. This covers one fragment, exactly
  full fragments, and a remainder in the last fragment alike. The two runs are the two
  sides of one run of the channel: by the handshake the transactions alternate, write
  first, so that the region holds the \<open>k\<close>-th publication of the sender when the
  receiver makes its \<open>k\<close>-th read, and is cleared when the sender makes its next write.
\<close>

theorem send_recv_round_trip:
  assumes ok: "platform_ok p" and pos: "0 < length m"
    and L: "length m + maxlen p \<le> size_mod p"
    and w: "r_sem w = 0" "w_sem w = 1"
    and h: "plan h = []"
  shows "\<exists>ws r a.
           send_item p (w\<lparr>peer := Collects []\<rparr>) m (length m) = Returns (0, ws) \<and>
           recv_item p (w\<lparr>peer := Publishes (publications ws)\<rparr>) h d0 l0 = Returns r \<and>
           rv_rc r = 0 \<and> rv_len r = length m \<and> rv_data r = Addr a \<and>
           blocks (rv_heap r) a = Some (map Some m) \<and>
           r_sem (rv_world r) = 0 \<and> w_sem (rv_world r) = 1 \<and>
           peer (rv_world r) = Publishes []"
proof -
  note S = no_wrap [OF ok pos L]
  let ?calls = "send_calls p m (length m)"
  let ?w0 = "w\<lparr>peer := Collects []\<rparr>"
  have v: "\<forall>c\<in>set ?calls. valid_call p c"
    using ok pos S(1) order_refl by (rule send_calls_valid)
  have p0: "peer ?w0 = Collects []"
    by simp
  have st: "(r_sem ?w0 = 0 \<and> w_sem ?w0 = 1) \<or>
            (r_sem ?w0 = 1 \<and> w_sem ?w0 = 0 \<and> 0 < seg_len (seg ?w0) \<and>
             seg_len (seg ?w0) \<le> MAX_BYTES - header_size p)"
    using w by simp
  from run_calls_collects [OF ok v p0 st]
  obtain ws segs where run: "run_calls p ?w0 ?calls = Returns (0, ws)"
    and pu: "publications ws = publications ?w0 @ segs"
    and sg: "list_all2 carries segs ?calls"
    by blast
  have "publications ?w0 = []"
    using w by (simp add: publications_def)
  with pu have pu': "publications ws = segs"
    by simp
  have snd: "send_item p ?w0 m (length m) = Returns (0, ws)"
    unfolding send_item_run_calls by (rule run)
  have w': "w\<lparr>peer := Publishes segs\<rparr>
            = \<lparr>seg = seg w, r_sem = 0, w_sem = 1, peer = Publishes segs\<rparr>"
    using w by (cases w) simp
  have h': "h = \<lparr>blocks = blocks h, next_addr = next_addr h, plan = []\<rparr>"
    using h by (cases h) simp
  from recv_item_paired [OF ok pos L sg, of "seg w" "blocks h" "next_addr h" d0 l0]
  obtain B' a' where
    "recv_item p (w\<lparr>peer := Publishes segs\<rparr>) h d0 l0
     = Returns \<lparr>rv_rc = 0, rv_data = Addr (next_addr h + 1), rv_len = length m,
                rv_world = \<lparr>seg = zero_segment, r_sem = 0, w_sem = 1, peer = Publishes []\<rparr>,
                rv_heap = \<lparr>blocks = B', next_addr = a', plan = []\<rparr>\<rparr>"
    and B': "B' (next_addr h + 1) = Some (map Some m)"
    unfolding w' [symmetric] h' [symmetric] by blast
  then have rcv:
    "recv_item p (w\<lparr>peer := Publishes (publications ws)\<rparr>) h d0 l0
     = Returns \<lparr>rv_rc = 0, rv_data = Addr (next_addr h + 1), rv_len = length m,
                rv_world = \<lparr>seg = zero_segment, r_sem = 0, w_sem = 1, peer = Publishes []\<rparr>,
                rv_heap = \<lparr>blocks = B', next_addr = a', plan = []\<rparr>\<rparr>"
    unfolding pu' by simp
  show ?thesis
    using snd rcv B'
    by (intro exI [of _ ws] exI [of _ "next_addr h + 1"]
        exI [of _ "\<lparr>rv_rc = 0, rv_data = Addr (next_addr h + 1), rv_len = length m,
                rv_world = \<lparr>seg = zero_segment, r_sem = 0, w_sem = 1, peer = Publishes []\<rparr>,
                rv_heap = \<lparr>blocks = B', next_addr = a', plan = []\<rparr>\<rparr>"]) simp
qed

theorem send_recv_round_trip_witness:
  "platform_ok lp64 \<and> 0 < length (replicate 11999933 (7::byte)) \<and>
   length (replicate 11999933 (7::byte)) + maxlen lp64 \<le> size_mod lp64 \<and>
   r_sem (fresh_world Idle) = 0 \<and> w_sem (fresh_world Idle) = 1 \<and> plan empty_heap = [] \<and>
   (\<exists>ws r a.
      send_item lp64 ((fresh_world Idle)\<lparr>peer := Collects []\<rparr>) (replicate 11999933 7)
        (length (replicate 11999933 (7::byte))) = Returns (0, ws) \<and>
      recv_item lp64 ((fresh_world Idle)\<lparr>peer := Publishes (publications ws)\<rparr>) empty_heap
        Null 0 = Returns r \<and>
      rv_rc r = 0 \<and> rv_len r = length (replicate 11999933 (7::byte)) \<and> rv_data r = Addr a \<and>
      blocks (rv_heap r) a = Some (map Some (replicate 11999933 7)))"
proof -
  let ?m = "replicate 11999933 (7::byte)"
  let ?w = "fresh_world Idle"
  have pos: "0 < length ?m" by simp
  have L: "length ?m + maxlen lp64 \<le> size_mod lp64"
    by (simp add: maxlen_lp64 size_mod_lp64)
  have w: "r_sem ?w = 0" "w_sem ?w = 1"
    by (simp_all add: fresh_world_def)
  have h: "plan empty_heap = []"
    by (simp add: empty_heap_def)
  from send_recv_round_trip [OF platform_ok_lp64 pos L w h, of Null 0]
  have "\<exists>ws r a.
      send_item lp64 (?w\<lparr>peer := Collects []\<rparr>) ?m (length ?m) = Returns (0, ws) \<and>
      recv_item lp64 (?w\<lparr>peer := Publishes (publications ws)\<rparr>) empty_heap Null 0 = Returns r \<and>
      rv_rc r = 0 \<and> rv_len r = length ?m \<and> rv_data r = Addr a \<and>
      blocks (rv_heap r) a = Some (map Some ?m)"
    by blast
  with platform_ok_lp64 pos L w h show ?thesis
    by blast
qed

section \<open>C2: corrupt fragments\<close>

lemma recv_first_zero:
  "recv_item lp64 (fresh_world (Publishes [zero_len_fragment])) empty_heap Null 0
   = Undefined InvalidFree"
  by (simp add: recv_eval zero_len_fragment_def first_fragment_def oversize_fragment_def)

lemma recv_first_oversize:
  "recv_item lp64 (fresh_world (Publishes [oversize_fragment])) empty_heap Null 0
   = Undefined InvalidFree"
  by (simp add: recv_eval zero_len_fragment_def first_fragment_def oversize_fragment_def)

lemma recv_middle_zero:
  "recv_item lp64 (fresh_world (Publishes [first_fragment 3, zero_len_fragment])) empty_heap Null 0
   = Undefined InvalidRead"
  by (simp add: recv_eval zero_len_fragment_def first_fragment_def oversize_fragment_def)

lemma recv_first_capacity:
  "recv_item lp64 (fresh_world (Publishes [capacity_fragment])) empty_heap Null 0
   = Undefined OutOfBounds"
  by (simp add: recv_eval capacity_fragment_def)

lemma recv_last_zero:
  "recv_item lp64 (fresh_world (Publishes [first_fragment 2, zero_len_fragment])) empty_heap Null 0
   = Undefined InvalidRead"
  by (simp add: recv_eval zero_len_fragment_def first_fragment_def oversize_fragment_def)

text \<open>
  Claim C2 asks \<^verbatim>\<open>recv_item\<close> to return an error, with every buffer freed, when a
  header reports length 0 or a length above the capacity, whichever fragment carries
  it. The code does not: a failed \<^verbatim>\<open>read_shared_memory\<close> leaves the pointer it was
  given unassigned, and \<^verbatim>\<open>recv_item\<close> then frees that pointer (first fragment) or
  copies from it (later fragments), which is undefined. Evaluated on a producer that
  publishes a first fragment of length 0, a first fragment of length 4000001, a middle
  fragment of length 0 and a last fragment of length 0. A reported length between the
  room behind the header and \<open>MAX_BYTES\<close> is not rejected at all: the copy reads past
  the end of the region (last line).
\<close>

theorem recv_item_corrupt_fragment:
  "recv_item lp64 (fresh_world (Publishes [zero_len_fragment])) empty_heap Null 0
   = Undefined InvalidFree \<and>
   recv_item lp64 (fresh_world (Publishes [oversize_fragment])) empty_heap Null 0
   = Undefined InvalidFree \<and>
   recv_item lp64 (fresh_world (Publishes [first_fragment 3, zero_len_fragment])) empty_heap Null 0
   = Undefined InvalidRead \<and>
   recv_item lp64 (fresh_world (Publishes [first_fragment 2, zero_len_fragment])) empty_heap Null 0
   = Undefined InvalidRead \<and>
   recv_item lp64 (fresh_world (Publishes [capacity_fragment])) empty_heap Null 0
   = Undefined OutOfBounds"
  using recv_first_zero recv_first_oversize recv_middle_zero recv_last_zero recv_first_capacity
  by simp

end
